theory Spec2Isabelle
  imports Main
begin

section \<open>Content model\<close>

text \<open>
  The document fetched from \<^verbatim>\<open>database.json\<close>: courses keyed by id, each with an
  ordered list of subjects, each with an ordered list of lessons, each with a quiz.
  The fields of different levels carry a prefix, since a record field is a global name.
\<close>

record question =
  stem :: string
  options :: "string list"
  answerIndex :: nat
  explanation :: string

record lesson =
  lesson_id :: string
  lesson_title :: string
  lesson_shortDescription :: string
  summary :: "(string \<times> string) list"
  quiz :: "question list"

record subject =
  subject_id :: string
  subject_title :: string
  subject_shortDescription :: string
  lessons :: "lesson list"

record course =
  course_title :: string
  color :: string
  subjects :: "subject list"

text \<open>\<^verbatim>\<open>data.courses\<close> is an object; \<^verbatim>\<open>courses[courseId]\<close> is a property lookup.\<close>

record database =
  courses :: "string \<rightharpoonup> course"

section \<open>JavaScript values the quiz logic relies on\<close>

text \<open>The only exception the handlers can raise: a property read on \<^verbatim>\<open>undefined\<close> or \<^verbatim>\<open>null\<close>.\<close>

datatype error = TypeError

text \<open>
  A slot of \<^verbatim>\<open>userAnswers\<close>: \<^verbatim>\<open>null\<close> (filled in by \<^verbatim>\<open>fill(null)\<close>, not answered yet),
  the selected option index, or \<^verbatim>\<open>undefined\<close> (what a read past the end of an array
  or of a hole yields).
\<close>

datatype slot = Undefined | Null | Selected nat

text \<open>\<^verbatim>\<open>xs[i]\<close> on an array: \<^verbatim>\<open>undefined\<close> past the end, never an exception.\<close>

definition question_at :: "question list \<Rightarrow> nat \<Rightarrow> question option" where
  "question_at qs i = (if i < length qs then Some (qs ! i) else None)"

definition slot_at :: "slot list \<Rightarrow> nat \<Rightarrow> slot" where
  "slot_at xs i = (if i < length xs then xs ! i else Undefined)"

text \<open>\<^verbatim>\<open>xs[i] = v\<close>: an assignment past the end extends the array, leaving holes.\<close>

definition slot_assign :: "slot list \<Rightarrow> nat \<Rightarrow> slot \<Rightarrow> slot list" where
  "slot_assign xs i v =
     (if i < length xs then xs[i := v] else xs @ replicate (i - length xs) Undefined @ [v])"

text \<open>
  \<^verbatim>\<open>${question.options[k]}\<close> inside a template literal: the option's text, or the
  text \<^verbatim>\<open>undefined\<close> when there is no such option.
\<close>

definition option_text :: "string list \<Rightarrow> nat \<Rightarrow> string" where
  "option_text opts k = (if k < length opts then opts ! k else ''undefined'')"

subsection \<open>The score percentage in double precision\<close>

text \<open>
  \<^verbatim>\<open>Math.round((correctAnswers / quizData.length) * 100)\<close> is evaluated on IEEE 754
  doubles: the quotient is rounded to 53 significant bits (ties to even), so is the
  product, and \<^verbatim>\<open>Math.round\<close> then takes the nearest integer, a tie going up.
  Both operands are array counts (below \<open>2^32\<close>), hence exact as doubles, and every
  intermediate value lies between \<open>2^-32\<close> and \<open>101\<close>, far from overflow and from the
  subnormal range. A positive double is written here as a pair \<open>(m, e)\<close> standing for
  \<open>m / 2^e\<close>.
\<close>

fun bitlen :: "nat \<Rightarrow> nat" where
  "bitlen n = (if n = 0 then 0 else Suc (bitlen (n div 2)))"

declare bitlen.simps [simp del]

text \<open>The integer nearest to \<open>num / den\<close>, a tie going to the even neighbour.\<close>

definition nearest_even :: "nat \<Rightarrow> nat \<Rightarrow> nat" where
  "nearest_even num den =
     (let q = num div den; r = num mod den in
      if 2 * r < den then q
      else if den < 2 * r then q + 1
      else if even q then q else q + 1)"

text \<open>
  \<open>c / n\<close> for \<open>0 < c \<le> n\<close>: the exponent \<open>e\<close> is chosen so that
  \<open>2^52 \<le> c * 2^e / n < 2^53\<close>, and the significand is rounded to an integer.
\<close>

definition double_exponent :: "nat \<Rightarrow> nat \<Rightarrow> nat" where
  "double_exponent c n =
     (let e = 52 + bitlen n - bitlen c in
      if c * 2 ^ e < 2 ^ 52 * n then e + 1 else e)"

definition double_divide :: "nat \<Rightarrow> nat \<Rightarrow> nat \<times> nat" where
  "double_divide c n =
     (let e = double_exponent c n in (nearest_even (c * 2 ^ e) n, e))"

text \<open>\<open>x * 100\<close>: the exact product \<open>100 * m\<close> has more than 53 bits; the extra low
  bits are rounded away.\<close>

definition double_times_100 :: "nat \<times> nat \<Rightarrow> nat \<times> nat" where
  "double_times_100 x =
     (let p = fst x * 100; s = bitlen p - 53 in (nearest_even p (2 ^ s) * 2 ^ s, snd x))"

text \<open>\<^verbatim>\<open>Math.round\<close>: \<open>floor (m / 2^e + 1/2)\<close>.\<close>

definition Math_round :: "nat \<times> nat \<Rightarrow> nat" where
  "Math_round x = (2 * fst x + 2 ^ snd x) div 2 ^ (snd x + 1)"

text \<open>
  The displayed percentage. \<^verbatim>\<open>0 / 0\<close> is \<^verbatim>\<open>NaN\<close> and stays \<^verbatim>\<open>NaN\<close>; \<open>0 / n\<close> is \<open>0\<close>.
  (A positive count over a zero length cannot occur: the count never exceeds the length.)
\<close>

datatype percentage = NaN | Percent nat

definition scorePercentage :: "nat \<Rightarrow> nat \<Rightarrow> percentage" where
  "scorePercentage correctAnswers len =
     (if len = 0 then NaN
      else if correctAnswers = 0 then Percent 0
      else Percent (Math_round (double_times_100 (double_divide correctAnswers len))))"

section \<open>Application state\<close>

text \<open>
  The state objects of the navigation stack, \<^verbatim>\<open>{type: 'subjects', courseId}\<close> and so on.
  \<^verbatim>\<open>renderView\<close> also knows the type \<^verbatim>\<open>'courses'\<close>.
\<close>

datatype view_state =
    Courses
  | Subjects string
  | Lessons string string
  | Lesson string string string
  | Quiz string string string

text \<open>One block of \<^verbatim>\<open>resultsHtml\<close>: the question, "Your Answer" and "Correct Answer".\<close>

record review_entry =
  entry_stem :: string
  chosenOptionText :: string
  correctOptionText :: string

text \<open>
  What \<^verbatim>\<open>appContainer\<close> shows, reduced to what decides which listeners exist and what
  they do: the ids captured by the card and button listeners; for a question its number
  in the progress text, the number of option buttons, whether they are disabled and
  whether the explanation is displayed; for the results the three numbers of the score
  line and the review blocks.
\<close>

datatype view =
    Blank
  | CourseListView
  | SubjectListView string
  | LessonListView string string
  | LessonDetailView string string string
  | QuestionView nat nat bool bool
  | ResultsView nat nat percentage "review_entry list"

text \<open>The variables one call of \<^verbatim>\<open>renderQuiz\<close> closes over.\<close>

record quiz_session =
  courseId :: string
  subjectId :: string
  lessonId :: string
  quizData :: "question list"
  currentQuestionIndex :: nat
  userAnswers :: "slot list"

text \<open>
  The \<^verbatim>\<open>app\<close> object, after \<^verbatim>\<open>init\<close> has stored the fetched document in \<^verbatim>\<open>data\<close>.
  \<open>session\<close> holds the variables of the \<^verbatim>\<open>renderQuiz\<close> closure whose question or
  results page was rendered last; only the listeners of those two pages refer to it
  (the object itself has no such field).
\<close>

record app =
  appContainer :: view
  data :: database
  navigationStack :: "view_state list"
  session :: "quiz_session option"

text \<open>
  A handler either runs to its end or throws; a throw does not undo the assignments
  made before it, so the error comes with the state it leaves behind.
\<close>

type_synonym outcome = "error \<times> app + app"

definition after :: "outcome \<Rightarrow> app" where
  "after r = (case r of Inl (e, a) \<Rightarrow> a | Inr a \<Rightarrow> a)"

section \<open>Navigation\<close>

text \<open>\<^verbatim>\<open>updateView(title, content, state)\<close>: title and content are one \<open>view\<close> here; an
  omitted or \<^verbatim>\<open>undefined\<close> state is \<open>None\<close> and is not pushed.\<close>

definition updateView :: "view \<Rightarrow> view_state option \<Rightarrow> app \<Rightarrow> app" where
  "updateView content state a =
     (case state of
        Some s \<Rightarrow> a\<lparr>appContainer := content, navigationStack := navigationStack a @ [s]\<rparr>
      | None \<Rightarrow> a\<lparr>appContainer := content\<rparr>)"

definition renderCourseList :: "app \<Rightarrow> outcome" where
  "renderCourseList a = Inr (updateView CourseListView None a)"

definition renderSubjectList :: "string \<Rightarrow> app \<Rightarrow> outcome" where
  "renderSubjectList cid a =
     (case courses (data a) cid of
        None \<Rightarrow> Inl (TypeError, a)
      | Some course \<Rightarrow> Inr (updateView (SubjectListView cid) (Some (Subjects cid)) a))"

definition renderLessonList :: "string \<Rightarrow> string \<Rightarrow> app \<Rightarrow> outcome" where
  "renderLessonList cid sid a =
     (case courses (data a) cid of
        None \<Rightarrow> Inl (TypeError, a)
      | Some course \<Rightarrow>
          (case find (\<lambda>s. subject_id s = sid) (subjects course) of
             None \<Rightarrow> Inl (TypeError, a)
           | Some subject \<Rightarrow>
               Inr (updateView (LessonListView cid sid) (Some (Lessons cid sid)) a)))"

definition renderLessonDetail :: "string \<Rightarrow> string \<Rightarrow> string \<Rightarrow> app \<Rightarrow> outcome" where
  "renderLessonDetail cid sid lid a =
     (case courses (data a) cid of
        None \<Rightarrow> Inl (TypeError, a)
      | Some course \<Rightarrow>
          (case find (\<lambda>s. subject_id s = sid) (subjects course) of
             None \<Rightarrow> Inl (TypeError, a)
           | Some subject \<Rightarrow>
               (case find (\<lambda>l. lesson_id l = lid) (lessons subject) of
                  None \<Rightarrow> Inl (TypeError, a)
                | Some lesson \<Rightarrow>
                    Inr (updateView (LessonDetailView cid sid lid) (Some (Lesson cid sid lid)) a))))"

section \<open>The quiz\<close>

text \<open>
  \<^verbatim>\<open>renderCurrentQuestion\<close> of the closure \<open>q\<close>. \<^verbatim>\<open>question.options\<close> throws when
  \<^verbatim>\<open>quizData[currentQuestionIndex]\<close> is \<^verbatim>\<open>undefined\<close>, before anything is shown.
  Otherwise the question is shown with fresh, enabled option buttons and a hidden
  explanation, a quiz state is pushed, and the listeners of \<open>q\<close> are attached.
\<close>

definition renderCurrentQuestion :: "quiz_session \<Rightarrow> app \<Rightarrow> outcome" where
  "renderCurrentQuestion q a =
     (case question_at (quizData q) (currentQuestionIndex q) of
        None \<Rightarrow> Inl (TypeError, a)
      | Some question \<Rightarrow>
          Inr (updateView
                 (QuestionView (currentQuestionIndex q) (length (options question)) False False)
                 (Some (Quiz (courseId q) (subjectId q) (lessonId q)))
                 (a\<lparr>session := Some q\<rparr>)))"

text \<open>
  \<^verbatim>\<open>renderQuiz\<close>: the three lookups (each a \<^verbatim>\<open>TypeError\<close> on the next property read when
  it yields \<^verbatim>\<open>undefined\<close>), then the fresh closure variables and the first question.
\<close>

definition renderQuiz :: "string \<Rightarrow> string \<Rightarrow> string \<Rightarrow> app \<Rightarrow> outcome" where
  "renderQuiz cid sid lid a =
     (case courses (data a) cid of
        None \<Rightarrow> Inl (TypeError, a)
      | Some course \<Rightarrow>
          (case find (\<lambda>s. subject_id s = sid) (subjects course) of
             None \<Rightarrow> Inl (TypeError, a)
           | Some subject \<Rightarrow>
               (case find (\<lambda>l. lesson_id l = lid) (lessons subject) of
                  None \<Rightarrow> Inl (TypeError, a)
                | Some lesson \<Rightarrow>
                    renderCurrentQuestion
                      \<lparr>courseId = cid, subjectId = sid, lessonId = lid,
                       quizData = quiz lesson,
                       currentQuestionIndex = 0,
                       userAnswers = replicate (length (quiz lesson)) Null\<rparr> a)))"

text \<open>\<^verbatim>\<open>renderView\<close>: the \<^verbatim>\<open>switch\<close> over \<^verbatim>\<open>state.type\<close>.\<close>

fun renderView :: "view_state \<Rightarrow> app \<Rightarrow> outcome" where
  "renderView Courses a = renderCourseList a"
| "renderView (Subjects cid) a = renderSubjectList cid a"
| "renderView (Lessons cid sid) a = renderLessonList cid sid a"
| "renderView (Lesson cid sid lid) a = renderLessonDetail cid sid lid a"
| "renderView (Quiz cid sid lid) a = renderQuiz cid sid lid a"

text \<open>\<^verbatim>\<open>handleBack\<close>: \<^verbatim>\<open>pop()\<close> on an empty array returns \<^verbatim>\<open>undefined\<close> and changes nothing.\<close>

definition handleBack :: "app \<Rightarrow> outcome" where
  "handleBack a =
     (let a1 = a\<lparr>navigationStack := butlast (navigationStack a)\<rparr> in
      if length (navigationStack a1) > 0 then
        let previousState = last (navigationStack a1);
            a2 = a1\<lparr>navigationStack := butlast (navigationStack a1)\<rparr>
        in renderView previousState a2
      else renderCourseList a1)"

text \<open>
  \<^verbatim>\<open>handleAnswerSelection\<close>: the answer is stored first, unconditionally. The option
  buttons of the page are then disabled; on a page without option buttons, without the
  question, or without a button for the selected or for the correct index, the handler
  throws on the way (\<^verbatim>\<open>options[i].classList\<close>, \<^verbatim>\<open>question.answerIndex\<close>,
  \<^verbatim>\<open>explanationEl.innerText\<close>). The \<^verbatim>\<open>correct\<close>/\<^verbatim>\<open>incorrect\<close> colouring is not modelled.
\<close>

definition handleAnswerSelection :: "nat \<Rightarrow> quiz_session \<Rightarrow> app \<Rightarrow> outcome" where
  "handleAnswerSelection selectedIndex q a =
     (let q1 = q\<lparr>userAnswers :=
                   slot_assign (userAnswers q) (currentQuestionIndex q) (Selected selectedIndex)\<rparr>;
          a1 = a\<lparr>session := Some q1\<rparr>
      in case appContainer a of
           QuestionView shown buttons disabled explained \<Rightarrow>
             (let a2 = a1\<lparr>appContainer := QuestionView shown buttons True explained\<rparr>;
                  a3 = a1\<lparr>appContainer := QuestionView shown buttons True True\<rparr>
              in case question_at (quizData q) (currentQuestionIndex q) of
                   None \<Rightarrow> Inl (TypeError, a2)
                 | Some question \<Rightarrow>
                     if selectedIndex = answerIndex question then
                       (if selectedIndex < buttons then Inr a3 else Inl (TypeError, a2))
                     else
                       (if selectedIndex < buttons \<and> answerIndex question < buttons
                        then Inr a3 else Inl (TypeError, a2)))
         | _ \<Rightarrow> Inl (TypeError, a1))"

text \<open>
  The \<^verbatim>\<open>forEach\<close> of \<^verbatim>\<open>renderResults\<close>, with its two accumulators \<^verbatim>\<open>correctAnswers\<close> and
  \<^verbatim>\<open>resultsHtml\<close>; \<open>index\<close> is the position of the head of the remaining questions.
\<close>

definition incorrect_question :: "question \<Rightarrow> slot \<Rightarrow> review_entry" where
  "incorrect_question question answer =
     \<lparr>entry_stem = stem question,
      chosenOptionText =
        (case answer of
           Null \<Rightarrow> ''Not Answered''
         | Selected k \<Rightarrow> option_text (options question) k
         | Undefined \<Rightarrow> ''undefined''),
      correctOptionText = option_text (options question) (answerIndex question)\<rparr>"

fun results_forEach ::
  "question list \<Rightarrow> nat \<Rightarrow> slot list \<Rightarrow> nat \<times> review_entry list \<Rightarrow> nat \<times> review_entry list"
where
  "results_forEach [] index answers acc = acc"
| "results_forEach (question # rest) index answers (correctAnswers, resultsHtml) =
     results_forEach rest (index + 1) answers
       (if slot_at answers index = Selected (answerIndex question)
        then (correctAnswers + 1, resultsHtml)
        else (correctAnswers, resultsHtml @ [incorrect_question question (slot_at answers index)]))"

text \<open>
  The two results of the loop, under the names the specification gives them: the score
  line (\<^verbatim>\<open>correctAnswers\<close>, \<^verbatim>\<open>quizData.length\<close>, \<^verbatim>\<open>scorePercentage\<close>) and the review blocks.
\<close>

record score_line =
  correctCount :: nat
  total :: nat
  percent :: percentage

definition score :: "quiz_session \<Rightarrow> score_line" where
  "score q =
     (let correctAnswers = fst (results_forEach (quizData q) 0 (userAnswers q) (0, [])) in
      \<lparr>correctCount = correctAnswers,
       total = length (quizData q),
       percent = scorePercentage correctAnswers (length (quizData q))\<rparr>)"

definition review :: "quiz_session \<Rightarrow> review_entry list" where
  "review q = snd (results_forEach (quizData q) 0 (userAnswers q) (0, []))"

text \<open>\<^verbatim>\<open>navigationStack[i]\<close> for a possibly negative \<open>i\<close>.\<close>

definition state_at :: "view_state list \<Rightarrow> int \<Rightarrow> view_state option" where
  "state_at st i = (if 0 \<le> i \<and> i < int (length st) then Some (st ! nat i) else None)"

text \<open>\<^verbatim>\<open>renderResults\<close> reads the closure and writes only the page and the stack.\<close>

definition renderResults :: "quiz_session \<Rightarrow> app \<Rightarrow> app" where
  "renderResults q a =
     updateView
       (ResultsView (correctCount (score q)) (total (score q)) (percent (score q)) (review q))
       (state_at (navigationStack a) (int (length (navigationStack a)) - 2))
       (a\<lparr>session := Some q\<rparr>)"

definition handleNext :: "quiz_session \<Rightarrow> app \<Rightarrow> outcome" where
  "handleNext q a =
     (if int (currentQuestionIndex q) < int (length (quizData q)) - 1 then
        (let q1 = q\<lparr>currentQuestionIndex := currentQuestionIndex q + 1\<rparr>
         in renderCurrentQuestion q1 (a\<lparr>session := Some q1\<rparr>))
      else Inr (renderResults q a))"

definition handlePrev :: "quiz_session \<Rightarrow> app \<Rightarrow> outcome" where
  "handlePrev q a =
     (if currentQuestionIndex q > 0 then
        (let q1 = q\<lparr>currentQuestionIndex := currentQuestionIndex q - 1\<rparr>
         in renderCurrentQuestion q1 (a\<lparr>session := Some q1\<rparr>))
      else Inr a)"

text \<open>The listener of the "Retry Quiz" button.\<close>

definition retry :: "quiz_session \<Rightarrow> app \<Rightarrow> outcome" where
  "retry q a = renderQuiz (courseId q) (subjectId q) (lessonId q) a"

section \<open>Running the application\<close>

text \<open>
  The quiz operations called one after another on the closure of the current session,
  each leaving its state to the next, whether it threw or not.
\<close>

datatype quiz_op = Next | Prev | SelectAnswer nat

definition apply_op :: "app \<Rightarrow> quiz_op \<Rightarrow> app" where
  "apply_op a op =
     (case session a of
        None \<Rightarrow> a
      | Some q \<Rightarrow>
          (case op of
             Next \<Rightarrow> after (handleNext q a)
           | Prev \<Rightarrow> after (handlePrev q a)
           | SelectAnswer k \<Rightarrow> after (handleAnswerSelection k q a)))"

text \<open>
  The listeners each page attaches, and what a click can reach: a card exists for each
  id that was rendered, a disabled button fires no click, and \<^verbatim>\<open>data-index\<close> of an
  option button is below the number of buttons. A card's listener reads the id back from
  the card's \<^verbatim>\<open>data-\<close> attribute; here it receives the rendered id itself, which is what
  the attribute returns for a plain id (letters, digits, hyphens, underscores). For
  other ids the attribute returns a different string, and the click is then the click
  \<open>ClickCard\<close> of that string where it is an id of the page, and otherwise a call that
  throws in its lookups before anything is pushed.
\<close>

datatype event =
    ClickCard string
  | ClickBack
  | ClickTest
  | ClickOption nat
  | ClickNext
  | ClickPrev
  | ClickRetry

definition dispatch :: "event \<Rightarrow> app \<Rightarrow> outcome option" where
  "dispatch ev a =
     (case appContainer a of
        Blank \<Rightarrow> None
      | CourseListView \<Rightarrow>
          (case ev of
             ClickCard cid \<Rightarrow>
               (case courses (data a) cid of
                  Some course \<Rightarrow> Some (renderSubjectList cid a)
                | None \<Rightarrow> None)
           | _ \<Rightarrow> None)
      | SubjectListView cid \<Rightarrow>
          (case ev of
             ClickBack \<Rightarrow> Some (handleBack a)
           | ClickCard sid \<Rightarrow>
               (case courses (data a) cid of
                  Some course \<Rightarrow>
                    if sid \<in> set (map subject_id (subjects course))
                    then Some (renderLessonList cid sid a) else None
                | None \<Rightarrow> None)
           | _ \<Rightarrow> None)
      | LessonListView cid sid \<Rightarrow>
          (case ev of
             ClickBack \<Rightarrow> Some (handleBack a)
           | ClickCard lid \<Rightarrow>
               (case courses (data a) cid of
                  Some course \<Rightarrow>
                    (case find (\<lambda>s. subject_id s = sid) (subjects course) of
                       Some subject \<Rightarrow>
                         if lid \<in> set (map lesson_id (lessons subject))
                         then Some (renderLessonDetail cid sid lid a) else None
                     | None \<Rightarrow> None)
                | None \<Rightarrow> None)
           | _ \<Rightarrow> None)
      | LessonDetailView cid sid lid \<Rightarrow>
          (case ev of
             ClickBack \<Rightarrow> Some (handleBack a)
           | ClickTest \<Rightarrow> Some (renderQuiz cid sid lid a)
           | _ \<Rightarrow> None)
      | QuestionView shown buttons disabled explained \<Rightarrow>
          (case session a of
             None \<Rightarrow> None
           | Some q \<Rightarrow>
               (case ev of
                  ClickBack \<Rightarrow> Some (handleBack a)
                | ClickOption k \<Rightarrow>
                    if \<not> disabled \<and> k < buttons
                    then Some (handleAnswerSelection k q a) else None
                | ClickNext \<Rightarrow> Some (handleNext q a)
                | ClickPrev \<Rightarrow> if shown = 0 then None else Some (handlePrev q a)
                | _ \<Rightarrow> None))
      | ResultsView c n p r \<Rightarrow>
          (case session a of
             None \<Rightarrow> None
           | Some q \<Rightarrow>
               (case ev of
                  ClickBack \<Rightarrow> Some (handleBack a)
                | ClickRetry \<Rightarrow> Some (retry q a)
                | _ \<Rightarrow> None)))"

definition step :: "app \<Rightarrow> event \<Rightarrow> app" where
  "step a ev = (case dispatch ev a of None \<Rightarrow> a | Some r \<Rightarrow> after r)"

text \<open>\<^verbatim>\<open>init\<close> once the document is loaded: the course list on an empty stack.\<close>

definition init :: "database \<Rightarrow> app" where
  "init d =
     after (renderCourseList
       \<lparr>appContainer = Blank, data = d, navigationStack = [], session = None\<rparr>)"

definition run :: "database \<Rightarrow> event list \<Rightarrow> app" where
  "run d evs = foldl step (init d) evs"

section \<open>Notions used to state the properties\<close>

text \<open>The lookup chain shared by \<^verbatim>\<open>renderLessonDetail\<close> and \<^verbatim>\<open>renderQuiz\<close>, as one function.\<close>

definition find_lesson :: "database \<Rightarrow> string \<Rightarrow> string \<Rightarrow> string \<Rightarrow> lesson option" where
  "find_lesson d cid sid lid =
     (case courses d cid of
        None \<Rightarrow> None
      | Some course \<Rightarrow>
          (case find (\<lambda>s. subject_id s = sid) (subjects course) of
             None \<Rightarrow> None
           | Some subject \<Rightarrow> find (\<lambda>l. lesson_id l = lid) (lessons subject)))"

text \<open>A state whose ids lead to content that its page can show.\<close>

fun resolves :: "database \<Rightarrow> view_state \<Rightarrow> bool" where
  "resolves d Courses = True"
| "resolves d (Subjects cid) = (courses d cid \<noteq> None)"
| "resolves d (Lessons cid sid) =
     (case courses d cid of
        None \<Rightarrow> False
      | Some course \<Rightarrow> find (\<lambda>s. subject_id s = sid) (subjects course) \<noteq> None)"
| "resolves d (Lesson cid sid lid) = (find_lesson d cid sid lid \<noteq> None)"
| "resolves d (Quiz cid sid lid) =
     (case find_lesson d cid sid lid of None \<Rightarrow> False | Some lesson \<Rightarrow> quiz lesson \<noteq> [])"

text \<open>The page on display is the page of the given state.\<close>

fun displays :: "app \<Rightarrow> view_state \<Rightarrow> bool" where
  "displays a Courses = (appContainer a = CourseListView)"
| "displays a (Subjects cid) = (appContainer a = SubjectListView cid)"
| "displays a (Lessons cid sid) = (appContainer a = LessonListView cid sid)"
| "displays a (Lesson cid sid lid) = (appContainer a = LessonDetailView cid sid lid)"
| "displays a (Quiz cid sid lid) =
     (case appContainer a of
        QuestionView shown buttons disabled explained \<Rightarrow>
          (case session a of
             None \<Rightarrow> False
           | Some q \<Rightarrow>
               courseId q = cid \<and> subjectId q = sid \<and> lessonId q = lid
               \<and> shown = currentQuestionIndex q)
      | _ \<Rightarrow> False)"

text \<open>The session a successful \<^verbatim>\<open>renderQuiz\<close> starts for a lesson.\<close>

definition fresh_session :: "string \<Rightarrow> string \<Rightarrow> string \<Rightarrow> lesson \<Rightarrow> quiz_session" where
  "fresh_session cid sid lid lesson =
     \<lparr>courseId = cid, subjectId = sid, lessonId = lid,
      quizData = quiz lesson,
      currentQuestionIndex = 0,
      userAnswers = replicate (length (quiz lesson)) Null\<rparr>"

text \<open>
  IEEE 754 rounding to nearest, ties to even, of the fraction \<open>num / den\<close> to an
  integer \<open>m\<close>: \<open>m\<close> is at most one half away, and even when exactly one half away.
\<close>

definition rounds_to_nearest_even :: "nat \<Rightarrow> nat \<Rightarrow> nat \<Rightarrow> bool" where
  "rounds_to_nearest_even num den m =
     (2 * (m * den) \<le> 2 * num + den \<and> 2 * num \<le> 2 * (m * den) + den
      \<and> (2 * (m * den) = 2 * num + den \<or> 2 * num = 2 * (m * den) + den \<longrightarrow> even m))"

text \<open>
  The three steps of \<^verbatim>\<open>Math.round((c / n) * 100)\<close> as the standard prescribes them,
  stated without the functions above. The quotient is \<open>m / 2^e\<close>: \<open>e\<close> places
  \<open>c * 2^e / n\<close> between \<open>2^52\<close> and \<open>2^53\<close> and \<open>m\<close> is that value rounded. The product
  is \<open>k * 2^s / 2^e\<close>: \<open>s\<close> places \<open>100 m / 2^s\<close> between \<open>2^52\<close> and \<open>2^53\<close> and \<open>k\<close> is
  that value rounded. \<^verbatim>\<open>Math.round\<close> of the product is then
  \<open>(2 * (k * 2^s) + 2^e) div 2^(e + 1)\<close>.
\<close>

definition double_percentage_steps :: "nat \<Rightarrow> nat \<Rightarrow> nat \<Rightarrow> nat \<Rightarrow> nat \<Rightarrow> nat \<Rightarrow> bool" where
  "double_percentage_steps c n e m s k =
     (2 ^ 52 * n \<le> c * 2 ^ e \<and> c * 2 ^ e < 2 ^ 53 * n
      \<and> rounds_to_nearest_even (c * 2 ^ e) n m
      \<and> 2 ^ 52 * 2 ^ s \<le> m * 100 \<and> m * 100 < 2 ^ 53 * 2 ^ s
      \<and> rounds_to_nearest_even (m * 100) (2 ^ s) k)"

text \<open>
  Following the specification's words, \<open>round(correctCount / total * 100)\<close>: the exact
  value of the fraction, rounded to the nearest integer, a tie going up.
\<close>

definition spec_percentage :: "nat \<Rightarrow> nat \<Rightarrow> nat" where
  "spec_percentage c n = (200 * c + n) div (2 * n)"

subsection \<open>The scenario of the specification\<close>

text \<open>
  A lesson with three questions whose correct indices are 1, 0 and 2, in a document
  with one course and one subject; a session in which the answers 1, 0 and 1 were given.
\<close>

definition scenario_quiz :: "question list" where
  "scenario_quiz =
     [\<lparr>stem = ''Q1'', options = [''a0'', ''a1'', ''a2''], answerIndex = 1, explanation = ''E1''\<rparr>,
      \<lparr>stem = ''Q2'', options = [''b0'', ''b1'', ''b2''], answerIndex = 0, explanation = ''E2''\<rparr>,
      \<lparr>stem = ''Q3'', options = [''c0'', ''c1'', ''c2''], answerIndex = 2, explanation = ''E3''\<rparr>]"

definition scenario_lesson :: lesson where
  "scenario_lesson =
     \<lparr>lesson_id = ''l'', lesson_title = ''Lesson'', lesson_shortDescription = ''Short'',
      summary = [], quiz = scenario_quiz\<rparr>"

definition scenario_subject :: subject where
  "scenario_subject =
     \<lparr>subject_id = ''s'', subject_title = ''Subject'', subject_shortDescription = ''Short'',
      lessons = [scenario_lesson]\<rparr>"

definition scenario_course :: course where
  "scenario_course =
     \<lparr>course_title = ''Course'', color = ''red'', subjects = [scenario_subject]\<rparr>"

definition scenario_db :: database where
  "scenario_db = \<lparr>courses = [''c'' \<mapsto> scenario_course]\<rparr>"

definition scenario_session :: quiz_session where
  "scenario_session =
     \<lparr>courseId = ''c'', subjectId = ''s'', lessonId = ''l'',
      quizData = scenario_quiz,
      currentQuestionIndex = 2,
      userAnswers = [Selected 1, Selected 0, Selected 1]\<rparr>"

text \<open>
  A session over forty questions of which the first 23 were answered correctly and the
  others wrongly: \<open>100 * 23 / 40\<close> is exactly \<open>57.5\<close>.
\<close>

definition tie_question :: question where
  "tie_question = \<lparr>stem = ''Q'', options = [''yes'', ''no''], answerIndex = 0, explanation = ''E''\<rparr>"

definition tie_session :: quiz_session where
  "tie_session =
     \<lparr>courseId = ''c'', subjectId = ''s'', lessonId = ''t'',
      quizData = replicate 40 tie_question,
      currentQuestionIndex = 39,
      userAnswers = replicate 23 (Selected 0) @ replicate 17 (Selected 1)\<rparr>"

text \<open>The clicks from the course list to the first question of the scenario's quiz.\<close>

definition to_quiz :: "event list" where
  "to_quiz = [ClickCard ''c'', ClickCard ''s'', ClickCard ''l'', ClickTest]"

section \<open>Double precision: the percentage is a nearest integer\<close>

lemma bitlen_upper: "x < 2 ^ bitlen x"
proof (induction x rule: bitlen.induct)
  case (1 n)
  show ?case
  proof (cases "n = 0")
    case True
    then show ?thesis by (simp add: bitlen.simps)
  next
    case False
    with 1 have "n div 2 < 2 ^ bitlen (n div 2)" by simp
    then have "n < 2 * 2 ^ bitlen (n div 2)" by linarith
    with False show ?thesis by (subst bitlen.simps) simp
  qed
qed

lemma bitlen_lower: "0 < x \<Longrightarrow> 2 ^ (bitlen x - 1) \<le> x"
proof (induction x rule: bitlen.induct)
  case (1 n)
  show ?case
  proof (cases "n div 2 = 0")
    case True
    with 1 have "n = 1" by linarith
    then show ?thesis by (simp add: bitlen.simps)
  next
    case False
    with 1 have ih: "2 ^ (bitlen (n div 2) - 1) \<le> n div 2" by simp
    from False have pos: "0 < bitlen (n div 2)" by (subst bitlen.simps) simp
    have "bitlen n = Suc (bitlen (n div 2))" using 1 by (subst bitlen.simps) simp
    then have "(2::nat) ^ (bitlen n - 1) = 2 * 2 ^ (bitlen (n div 2) - 1)"
      using pos by (cases "bitlen (n div 2)") simp_all
    with ih show ?thesis by linarith
  qed
qed

lemma bitlen_le: "x < 2 ^ k \<Longrightarrow> bitlen x \<le> k"
proof (rule ccontr)
  assume lt: "x < 2 ^ k" and "\<not> bitlen x \<le> k"
  then have k: "k \<le> bitlen x - 1" by simp
  from lt have "0 < bitlen x \<Longrightarrow> 0 < x" by (subst (asm) bitlen.simps) (simp split: if_splits)
  with \<open>\<not> bitlen x \<le> k\<close> have "0 < x" by simp
  then have "2 ^ (bitlen x - 1) \<le> x" by (rule bitlen_lower)
  moreover have "(2::nat) ^ k \<le> 2 ^ (bitlen x - 1)" using k by (simp add: power_increasing)
  ultimately show False using lt by linarith
qed

text \<open>Rounding to the nearest integer is off by at most one half.\<close>

lemma nearest_even_error:
  assumes "0 < b"
  shows "2 * (nearest_even a b * b) \<le> 2 * a + b \<and> 2 * a \<le> 2 * (nearest_even a b * b) + b"
proof -
  define q where "q = a div b"
  define r where "r = a mod b"
  have a: "a = q * b + r" by (simp add: q_def r_def)
  have r: "r < b" using assms by (simp add: r_def)
  have ne: "nearest_even a b = q \<and> 2 * r \<le> b \<or> nearest_even a b = q + 1 \<and> b \<le> 2 * r"
    by (auto simp: nearest_even_def Let_def q_def r_def)
  then show ?thesis
  proof
    assume h: "nearest_even a b = q \<and> 2 * r \<le> b"
    then show ?thesis using a by simp
  next
    assume h: "nearest_even a b = q + 1 \<and> b \<le> 2 * r"
    have "(q + 1) * b = q * b + b" by (simp add: algebra_simps)
    with h show ?thesis using a r by simp
  qed
qed

text \<open>The exponent normalises the quotient: its significand has 53 bits.\<close>

lemma double_exponent_normal:
  assumes "0 < c" and "c \<le> n"
  shows "52 \<le> double_exponent c n
         \<and> 2 ^ 52 * n \<le> c * 2 ^ double_exponent c n
         \<and> c * 2 ^ double_exponent c n < 2 ^ 53 * n"
proof -
  have npos: "0 < n" using assms by simp
  have bc: "bitlen c \<le> bitlen n"
  proof (rule bitlen_le)
    show "c < 2 ^ bitlen n" using assms(2) bitlen_upper [of n] by simp
  qed
  have "0 < bitlen c" using assms(1) by (subst bitlen.simps) simp
  then obtain kc where kc: "bitlen c = Suc kc" by (cases "bitlen c") simp_all
  have "0 < bitlen n" using npos by (subst bitlen.simps) simp
  then obtain kn where kn: "bitlen n = Suc kn" by (cases "bitlen n") simp_all
  have c_lo: "2 ^ kc \<le> c" using bitlen_lower [OF assms(1)] by (simp add: kc)
  have c_up: "c < 2 * 2 ^ kc" using bitlen_upper [of c] by (simp add: kc)
  have n_lo: "2 ^ kn \<le> n" using bitlen_lower [OF npos] by (simp add: kn)
  have n_up: "n < 2 * 2 ^ kn" using bitlen_upper [of n] by (simp add: kn)
  from bc have le: "kc \<le> kn" by (simp add: kc kn)
  define d where "d = kn - kc"
  have knd: "kn = kc + d" using le by (simp add: d_def)
  define e where "e = 52 + bitlen n - bitlen c"
  have e_d: "e = 52 + d" using le by (simp add: e_def kc kn d_def)
  have pw: "(2::nat) ^ e = 2 ^ 52 * 2 ^ d" by (simp only: e_d power_add)
  have pk: "(2::nat) ^ kn = 2 ^ kc * 2 ^ d" by (simp only: knd power_add)
  have up: "c * 2 ^ e < 2 ^ 53 * n"
  proof -
    have "c * 2 ^ e < (2 * 2 ^ kc) * 2 ^ e" using c_up by simp
    also have "\<dots> = 2 ^ 53 * 2 ^ kn" by (simp only: pw pk) simp
    also have "\<dots> \<le> 2 ^ 53 * n" using n_lo by simp
    finally show ?thesis .
  qed
  have lo: "2 ^ 51 * n < c * 2 ^ e"
  proof -
    have "2 ^ 51 * n < 2 ^ 51 * (2 * 2 ^ kn)" using n_up by simp
    also have "\<dots> = 2 ^ kc * 2 ^ e" by (simp only: pw pk) simp
    also have "\<dots> \<le> c * 2 ^ e" using c_lo by simp
    finally show ?thesis .
  qed
  have e52: "52 \<le> e" by (simp add: e_d)
  show ?thesis
  proof (cases "c * 2 ^ e < 2 ^ 52 * n")
    case True
    then have d: "double_exponent c n = e + 1" by (simp add: double_exponent_def e_def)
    show ?thesis using e52 True lo unfolding d by simp
  next
    case False
    then have d: "double_exponent c n = e" by (simp add: double_exponent_def e_def)
    show ?thesis using e52 False up unfolding d by simp
  qed
qed

text \<open>
  With \<open>p\<close> the computed percentage of \<open>c\<close> out of \<open>n\<close>: \<open>|p - 100 c / n| \<le> 1/2\<close>, written
  without fractions. The two roundings of the double arithmetic together are too small
  (below \<open>228 / 2^52\<close>) to move the value across a multiple of \<open>1 / (2 n)\<close>.
\<close>

lemma percentage_nearest:
  assumes cpos: "0 < c" and cn: "c \<le> n" and nb: "n < 2 ^ 32"
  shows "2 * n * Math_round (double_times_100 (double_divide c n)) \<le> 200 * c + n
         \<and> 200 * c \<le> 2 * n * Math_round (double_times_100 (double_divide c n)) + n"
proof -
  define E :: nat where "E = 2 ^ double_exponent c n"
  define m where "m = nearest_even (c * E) n"
  define S :: nat where "S = 2 ^ (bitlen (m * 100) - 53)"
  define X where "X = nearest_even (m * 100) S * S"
  define p where "p = Math_round (double_times_100 (double_divide c n))"
  have npos: "0 < n" using cpos cn by simp
  have p_eq: "p = (2 * X + E) div (2 * E)"
    by (simp add: p_def Math_round_def double_times_100_def double_divide_def Let_def
        X_def S_def m_def E_def)
  from double_exponent_normal [OF cpos cn]
  have e52: "52 \<le> double_exponent c n" and up: "c * E < 2 ^ 53 * n"
    by (simp_all add: E_def)
  have E52: "2 ^ 52 \<le> E"
    unfolding E_def using e52 by (rule power_increasing) simp
  have Epos: "0 < E" by (simp add: E_def)
  have Spos: "0 < S" by (simp add: S_def)
  have a: "2 * (m * n) \<le> 2 * (c * E) + n" "2 * (c * E) \<le> 2 * (m * n) + n"
    using nearest_even_error [OF npos, of "c * E"] by (simp_all add: m_def)
  have b: "2 * X \<le> 2 * (m * 100) + S" "2 * (m * 100) \<le> 2 * X + S"
    using nearest_even_error [OF Spos, of "m * 100"] by (simp_all add: X_def)
  have m53: "m \<le> 2 ^ 53"
  proof (rule ccontr)
    assume "\<not> m \<le> 2 ^ 53"
    then have "2 ^ 53 + 1 \<le> m" by simp
    then have "(2 ^ 53 + 1) * n \<le> m * n" by (rule mult_le_mono1)
    then have "2 ^ 53 * n + n \<le> m * n" by (simp add: algebra_simps)
    with a(1) up show False by linarith
  qed
  have "m * 100 < 2 ^ 60" using m53 by simp
  then have "bitlen (m * 100) \<le> 60" by (rule bitlen_le)
  then have "bitlen (m * 100) - 53 \<le> 7" by simp
  then have "S \<le> 2 ^ 7" unfolding S_def by (rule power_increasing) simp
  then have S128: "S * n \<le> 128 * n" by simp
  have big: "228 * n < E" using nb E52 by simp
  have f1: "2 * E * p \<le> 2 * X + E"
    unfolding p_eq by (rule times_div_less_eq_dividend)
  have f2: "2 * X + E < 2 * E * p + 2 * E"
  proof -
    have "0 < 2 * E" using Epos by simp
    then have "(2 * X + E) mod (2 * E) < 2 * E" by (rule mod_less_divisor)
    moreover have "2 * X + E = 2 * E * p + (2 * X + E) mod (2 * E)"
      unfolding p_eq by simp
    ultimately show ?thesis by linarith
  qed
  define A1 where "A1 = E * (n * p)"
  define A2 where "A2 = X * n"
  define A3 where "A3 = m * n"
  define A4 where "A4 = c * E"
  define En where "En = E * n"
  have g1: "2 * A1 \<le> 2 * A2 + En"
  proof -
    from f1 have "(2 * E * p) * n \<le> (2 * X + E) * n" by (rule mult_le_mono1)
    then show ?thesis by (simp add: A1_def A2_def En_def algebra_simps)
  qed
  have g2: "2 * A2 + En < 2 * A1 + 2 * En"
  proof -
    from f2 npos have "(2 * X + E) * n < (2 * E * p + 2 * E) * n" by (rule mult_less_mono1)
    then show ?thesis by (simp add: A1_def A2_def En_def algebra_simps)
  qed
  have g3: "2 * A2 \<le> 200 * A3 + S * n"
  proof -
    from b(1) have "(2 * X) * n \<le> (2 * (m * 100) + S) * n" by (rule mult_le_mono1)
    then show ?thesis by (simp add: A2_def A3_def algebra_simps)
  qed
  have g4: "200 * A3 \<le> 2 * A2 + S * n"
  proof -
    from b(2) have "(2 * (m * 100)) * n \<le> (2 * X + S) * n" by (rule mult_le_mono1)
    then show ?thesis by (simp add: A2_def A3_def algebra_simps)
  qed
  have g5: "2 * A3 \<le> 2 * A4 + n" "2 * A4 \<le> 2 * A3 + n"
    using a by (simp_all add: A3_def A4_def)
  have A: "2 * n * p \<le> 200 * c + n"
  proof (rule ccontr)
    assume "\<not> 2 * n * p \<le> 200 * c + n"
    then have "200 * c + n + 1 \<le> 2 * n * p" by simp
    then have "(200 * c + n + 1) * E \<le> (2 * n * p) * E" by (rule mult_le_mono1)
    then have "200 * A4 + En + E \<le> 2 * A1"
      by (simp add: A1_def A4_def En_def algebra_simps)
    with g1 g3 g5 S128 big show False by linarith
  qed
  have B: "200 * c \<le> 2 * n * p + n"
  proof (rule ccontr)
    assume "\<not> 200 * c \<le> 2 * n * p + n"
    then have "2 * n * p + n + 1 \<le> 200 * c" by simp
    then have "(2 * n * p + n + 1) * E \<le> (200 * c) * E" by (rule mult_le_mono1)
    then have "2 * A1 + En + E \<le> 200 * A4"
      by (simp add: A1_def A4_def En_def algebra_simps)
    with g2 g4 g5 S128 big show False by linarith
  qed
  from A B show ?thesis by (simp add: p_def)
qed

text \<open>
  Unless \<open>100 c / n\<close> lies exactly half way between two integers, the computed
  percentage is therefore the exact value rounded half up.
\<close>

lemma percentage_half_up:
  assumes cpos: "0 < c" and cn: "c \<le> n" and nb: "n < 2 ^ 32"
    and no_tie: "(200 * c) mod (2 * n) \<noteq> n"
  shows "Math_round (double_times_100 (double_divide c n)) = (200 * c + n) div (2 * n)"
proof -
  define p where "p = Math_round (double_times_100 (double_divide c n))"
  have npos: "0 < 2 * n" using cpos cn by simp
  from percentage_nearest [OF cpos cn nb]
  have up: "p * (2 * n) \<le> 200 * c + n" and lo: "200 * c \<le> p * (2 * n) + n"
    by (simp_all add: p_def mult.commute)
  from up have le: "p \<le> (200 * c + n) div (2 * n)"
    using npos by (simp add: less_eq_div_iff_mult_less_eq)
  have ge: "(200 * c + n) div (2 * n) \<le> p"
  proof (rule ccontr)
    assume "\<not> (200 * c + n) div (2 * n) \<le> p"
    then have "p + 1 \<le> (200 * c + n) div (2 * n)" by simp
    then have "(p + 1) * (2 * n) \<le> 200 * c + n"
      using npos by (simp only: less_eq_div_iff_mult_less_eq)
    then have "p * (2 * n) + n \<le> 200 * c" by (simp add: algebra_simps)
    with lo have "200 * c = p * (2 * n) + n" by simp
    then have "(200 * c) mod (2 * n) = n" using npos by simp
    with no_tie show False by simp
  qed
  from le ge show ?thesis by (simp add: p_def)
qed

text \<open>
  The functions of the model carry out the steps of the standard, and the steps
  determine their result: no other exponent or significand satisfies them.
\<close>

lemma nearest_even_rounds:
  assumes "0 < b"
  shows "rounds_to_nearest_even a b (nearest_even a b)"
proof -
  define q where "q = a div b"
  define r where "r = a mod b"
  have a: "a = q * b + r" by (simp add: q_def r_def)
  have r: "r < b" using assms by (simp add: r_def)
  have s: "(q + 1) * b = q * b + b" by (simp add: algebra_simps)
  consider (down) "2 * r < b" | (up) "b < 2 * r" | (tie) "2 * r = b" by linarith
  then show ?thesis
  proof cases
    case down
    then have "nearest_even a b = q" by (simp add: nearest_even_def Let_def q_def r_def)
    then show ?thesis using a down by (simp add: rounds_to_nearest_even_def)
  next
    case up
    then have "nearest_even a b = q + 1"
      by (simp add: nearest_even_def Let_def q_def r_def)
    then show ?thesis using a up r s by (simp add: rounds_to_nearest_even_def)
  next
    case tie
    show ?thesis
    proof (cases "even q")
      case True
      then have "nearest_even a b = q"
        using tie by (simp add: nearest_even_def Let_def q_def r_def)
      then show ?thesis using a tie True by (simp add: rounds_to_nearest_even_def)
    next
      case False
      then have "nearest_even a b = q + 1"
        using tie by (simp add: nearest_even_def Let_def q_def r_def)
      then show ?thesis using a tie False s by (simp add: rounds_to_nearest_even_def)
    qed
  qed
qed

lemma rounds_to_nearest_even_unique:
  assumes "0 < b" and m: "rounds_to_nearest_even a b m" and m': "rounds_to_nearest_even a b m'"
  shows "m = m'"
proof -
  have step: "x = y" if x: "rounds_to_nearest_even a b x" and y: "rounds_to_nearest_even a b y"
    and le: "x \<le> y" for x y
  proof (rule ccontr)
    assume "x \<noteq> y"
    with le have "x + 1 \<le> y" by simp
    then have "(x + 1) * b \<le> y * b" by (rule mult_le_mono1)
    then have yb: "x * b + b \<le> y * b" by (simp add: algebra_simps)
    from x have x2: "2 * a \<le> 2 * (x * b) + b"
      and xt: "2 * a = 2 * (x * b) + b \<Longrightarrow> even x"
      by (simp_all add: rounds_to_nearest_even_def)
    from y have y1: "2 * (y * b) \<le> 2 * a + b"
      and yt: "2 * (y * b) = 2 * a + b \<Longrightarrow> even y"
      by (simp_all add: rounds_to_nearest_even_def)
    from yb x2 y1 have e1: "2 * a = 2 * (x * b) + b" and e2: "2 * (y * b) = 2 * a + b"
      and e3: "y * b = x * b + b"
      by linarith+
    from e3 have "y * b = (x + 1) * b" by (simp add: algebra_simps)
    then have "y = x + 1 \<or> b = 0" by (simp only: mult_cancel2)
    then have "y = x + 1" using assms(1) by simp
    with xt [OF e1] yt [OF e2] show False by simp
  qed
  show ?thesis
  proof (cases "m \<le> m'")
    case True
    then show ?thesis using step [OF m m'] by simp
  next
    case False
    then have "m' \<le> m" by simp
    then show ?thesis using step [OF m' m] by simp
  qed
qed

lemma binade_unique:
  fixes x d :: nat
  assumes "2 ^ 52 * d \<le> x * 2 ^ e" and "x * 2 ^ e < 2 ^ 53 * d"
    and "2 ^ 52 * d \<le> x * 2 ^ e'" and "x * 2 ^ e' < 2 ^ 53 * d"
  shows "e = e'"
proof -
  have step: False if lt: "i < j" and lo: "2 ^ 52 * d \<le> x * 2 ^ i" and up: "x * 2 ^ j < 2 ^ 53 * d"
    for i j
  proof -
    from lt have "Suc i \<le> j" by simp
    then have "(2::nat) ^ Suc i \<le> 2 ^ j" by (rule power_increasing) simp
    then have "x * 2 ^ Suc i \<le> x * 2 ^ j" by (rule mult_le_mono2)
    then have "2 * (x * 2 ^ i) \<le> x * 2 ^ j" by simp
    with lo up show False by simp
  qed
  show ?thesis
  proof (rule ccontr)
    assume "e \<noteq> e'"
    then consider "e < e'" | "e' < e" by linarith
    then show False
    proof cases
      case 1
      from step [OF 1 assms(1) assms(4)] show False .
    next
      case 2
      from step [OF 2 assms(3) assms(2)] show False .
    qed
  qed
qed

lemma bitlen_eq:
  assumes "2 ^ 53 \<le> p"
  shows "2 ^ 52 * 2 ^ (bitlen p - 53) \<le> p \<and> p < 2 ^ 53 * 2 ^ (bitlen p - 53)"
proof -
  have "\<not> bitlen p \<le> 53"
  proof
    assume "bitlen p \<le> 53"
    then have "(2::nat) ^ bitlen p \<le> 2 ^ 53" by (rule power_increasing) simp
    with bitlen_upper [of p] assms show False by simp
  qed
  then obtain s where s: "bitlen p = 53 + Suc s"
    by (metis add_Suc_right less_imp_Suc_add not_le_imp_less)
  have pos: "0 < p" using assms by (simp add: Suc_le_eq [symmetric] less_le_trans [of 0 "2 ^ 53"])
  from bitlen_lower [OF pos] have lo: "2 ^ (53 + s) \<le> p" by (simp add: s)
  from bitlen_upper [of p] have up: "p < 2 ^ (53 + Suc s)" by (simp only: s)
  have "(2::nat) ^ (53 + s) = 2 ^ 52 * 2 ^ Suc s" by (simp add: power_add)
  moreover have "(2::nat) ^ (53 + Suc s) = 2 ^ 53 * 2 ^ Suc s" by (simp only: power_add)
  ultimately show ?thesis using lo up by (simp only: s diff_add_inverse)
qed

lemma double_steps_exist:
  assumes cpos: "0 < c" and cn: "c \<le> n"
  shows "double_percentage_steps c n (double_exponent c n)
           (fst (double_divide c n))
           (bitlen (fst (double_divide c n) * 100) - 53)
           (nearest_even (fst (double_divide c n) * 100)
              (2 ^ (bitlen (fst (double_divide c n) * 100) - 53)))"
proof -
  define E :: nat where "E = 2 ^ double_exponent c n"
  define m where "m = nearest_even (c * E) n"
  have m_eq: "fst (double_divide c n) = m"
    by (simp add: double_divide_def Let_def m_def E_def)
  have npos: "0 < n" using cpos cn by simp
  from double_exponent_normal [OF cpos cn]
  have lo: "2 ^ 52 * n \<le> c * E" and up: "c * E < 2 ^ 53 * n"
    by (simp_all add: E_def)
  have rm: "rounds_to_nearest_even (c * E) n m"
    unfolding m_def by (rule nearest_even_rounds [OF npos])
  then have b: "2 * (c * E) \<le> 2 * (m * n) + n"
    by (simp add: rounds_to_nearest_even_def)
  have m52: "2 ^ 52 \<le> m"
  proof (rule ccontr)
    assume "\<not> 2 ^ 52 \<le> m"
    then have "m + 1 \<le> 2 ^ 52" by simp
    then have "(m + 1) * n \<le> 2 ^ 52 * n" by (rule mult_le_mono1)
    then have "m * n + n \<le> 2 ^ 52 * n" by (simp add: algebra_simps)
    with b lo npos show False by linarith
  qed
  then have "2 ^ 53 \<le> m * 100" by simp
  from bitlen_eq [OF this]
  have pb: "2 ^ 52 * 2 ^ (bitlen (m * 100) - 53) \<le> m * 100"
    "m * 100 < 2 ^ 53 * 2 ^ (bitlen (m * 100) - 53)"
    by simp_all
  have rk: "rounds_to_nearest_even (m * 100) (2 ^ (bitlen (m * 100) - 53))
              (nearest_even (m * 100) (2 ^ (bitlen (m * 100) - 53)))"
    by (rule nearest_even_rounds) simp
  show ?thesis
    unfolding double_percentage_steps_def m_eq
    using lo up rm pb rk by (simp add: E_def)
qed

lemma double_percentage_value:
  "Math_round (double_times_100 (double_divide c n)) =
     (2 * (nearest_even (fst (double_divide c n) * 100)
              (2 ^ (bitlen (fst (double_divide c n) * 100) - 53))
           * 2 ^ (bitlen (fst (double_divide c n) * 100) - 53))
      + 2 ^ double_exponent c n) div 2 ^ (double_exponent c n + 1)"
  by (simp add: Math_round_def double_times_100_def double_divide_def Let_def)

lemma double_steps_unique:
  assumes npos: "0 < n"
    and 1: "double_percentage_steps c n e m s k"
    and 2: "double_percentage_steps c n e' m' s' k'"
  shows "e = e' \<and> m = m' \<and> s = s' \<and> k = k'"
proof -
  from 1 2 have e: "e = e'"
    unfolding double_percentage_steps_def by (blast intro: binade_unique)
  from 1 2 have "rounds_to_nearest_even (c * 2 ^ e) n m" "rounds_to_nearest_even (c * 2 ^ e) n m'"
    unfolding double_percentage_steps_def e by blast+
  then have m: "m = m'" by (rule rounds_to_nearest_even_unique [OF npos])
  from 1 have s1: "2 ^ 52 * 2 ^ s \<le> 1 * (m * 100)" "1 * (m * 100) < 2 ^ 53 * 2 ^ s"
    unfolding double_percentage_steps_def by simp_all
  from 2 have s2: "2 ^ 52 * 2 ^ s' \<le> 1 * (m * 100)" "1 * (m * 100) < 2 ^ 53 * 2 ^ s'"
    unfolding double_percentage_steps_def m by simp_all
  have s: "s = s'"
  proof (rule ccontr)
    assume "s \<noteq> s'"
    then consider "s < s'" | "s' < s" by linarith
    then show False
    proof cases
      case 1
      then have "Suc s \<le> s'" by simp
      then have "(2::nat) ^ Suc s \<le> 2 ^ s'" by (rule power_increasing) simp
      with s1(2) s2(1) show False by simp
    next
      case 2
      then have "Suc s' \<le> s" by simp
      then have "(2::nat) ^ Suc s' \<le> 2 ^ s" by (rule power_increasing) simp
      with s2(2) s1(1) show False by simp
    qed
  qed
  from 1 2 have "rounds_to_nearest_even (m * 100) (2 ^ s) k"
    "rounds_to_nearest_even (m * 100) (2 ^ s) k'"
    unfolding double_percentage_steps_def m s by blast+
  then have "k = k'" by (rule rounds_to_nearest_even_unique [rotated]) simp
  with e m s show ?thesis by simp
qed

lemma scorePercentage_steps:
  assumes cpos: "0 < c" and cn: "c \<le> n"
    and st: "double_percentage_steps c n e m s k"
  shows "scorePercentage c n = Percent ((2 * (k * 2 ^ s) + 2 ^ e) div 2 ^ (e + 1))"
proof -
  have npos: "0 < n" using cpos cn by simp
  from double_steps_unique [OF npos st double_steps_exist [OF cpos cn]]
  have "e = double_exponent c n"
    "s = bitlen (fst (double_divide c n) * 100) - 53"
    "k = nearest_even (fst (double_divide c n) * 100)
              (2 ^ (bitlen (fst (double_divide c n) * 100) - 53))"
    by simp_all
  then show ?thesis
    using cpos npos by (simp add: scorePercentage_def double_percentage_value)
qed

text \<open>Two values of the arithmetic: \<open>(2 / 3) * 100\<close> is \<open>66.66666666666666\<close>, shown as 67.\<close>

lemma bitlen_2: "bitlen 2 = 2"
  by (simp add: bitlen.simps)

lemma bitlen_3: "bitlen 3 = 2"
  by (simp add: bitlen.simps)

lemma double_divide_2_3: "double_divide 2 3 = (6004799503160661, 53)"
  by (simp add: double_divide_def double_exponent_def bitlen_2 bitlen_3 nearest_even_def Let_def)

lemma bitlen_product_2_3: "bitlen 600479950316066100 = 60"
  by (simp add: bitlen.simps)

lemma double_times_100_2_3:
  "double_times_100 (6004799503160661, 53) = (600479950316066048, 53)"
  by (simp add: double_times_100_def bitlen_product_2_3 nearest_even_def Let_def)

lemma scorePercentage_2_3: "scorePercentage 2 3 = Percent 67"
  by (simp add: scorePercentage_def double_divide_2_3 double_times_100_2_3 Math_round_def)

text \<open>
  An exact tie can end below the tie: \<open>23 / 40\<close> is no double, the nearest one lies just
  under \<open>0.575\<close>, and \<open>(23 / 40) * 100\<close> is \<open>57.49999999999999\<close>, shown as 57 (both 57
  and 58 are nearest integers of \<open>57.5\<close>).
\<close>

lemma bitlen_23: "bitlen 23 = 5"
  by (simp add: bitlen.simps)

lemma bitlen_40: "bitlen 40 = 6"
  by (simp add: bitlen.simps)

lemma double_divide_23_40: "double_divide 23 40 = (5179139571476070, 53)"
  by (simp add: double_divide_def double_exponent_def bitlen_23 bitlen_40 nearest_even_def Let_def)

lemma bitlen_product_23_40: "bitlen 517913957147607000 = 59"
  by (simp add: bitlen.simps)

lemma double_times_100_23_40:
  "double_times_100 (5179139571476070, 53) = (517913957147606976, 53)"
  by (simp add: double_times_100_def bitlen_product_23_40 nearest_even_def Let_def)

lemma scorePercentage_23_40: "scorePercentage 23 40 = Percent 57"
  by (simp add: scorePercentage_def double_divide_23_40 double_times_100_23_40 Math_round_def)

text \<open>
  A tie can also end exactly on the tie: \<open>(3 / 40) * 100\<close> is \<open>7.5\<close>, shown as 8.
\<close>

lemma double_divide_3_40: "double_divide 3 40 = (5404319552844595, 56)"
  by (simp add: double_divide_def double_exponent_def bitlen_3 bitlen_40 nearest_even_def Let_def)

lemma bitlen_product_3_40: "bitlen 540431955284459500 = 59"
  by (simp add: bitlen.simps)

lemma double_times_100_3_40:
  "double_times_100 (5404319552844595, 56) = (540431955284459520, 56)"
  by (simp add: double_times_100_def bitlen_product_3_40 nearest_even_def Let_def)

lemma scorePercentage_3_40: "scorePercentage 3 40 = Percent 8"
  by (simp add: scorePercentage_def double_divide_3_40 double_times_100_3_40 Math_round_def)

lemma steps_2_3: "double_percentage_steps 2 3 53 6004799503160661 7 4691249611844266"
  by (simp add: double_percentage_steps_def rounds_to_nearest_even_def)

lemma spec_percentage_23_40: "spec_percentage 23 40 = 58"
  by (simp add: spec_percentage_def)

section \<open>Score and review\<close>

text \<open>The loop, as a count and a filtered list over the numbered questions.\<close>

lemma results_forEach_enumerate:
  "results_forEach qs i answers (c, h) =
     (c + length (filter (\<lambda>(j, question). slot_at answers j = Selected (answerIndex question))
                    (enumerate i qs)),
      h @ map (\<lambda>(j, question). incorrect_question question (slot_at answers j))
            (filter (\<lambda>(j, question). slot_at answers j \<noteq> Selected (answerIndex question))
               (enumerate i qs)))"
  by (induction qs arbitrary: i c h) simp_all

lemma count_enumerate_card:
  "length (filter (\<lambda>(j, x). P j x) (enumerate 0 xs)) = card {i. i < length xs \<and> P i (xs ! i)}"
proof -
  have "length (filter (\<lambda>(j, x). P j x) (enumerate 0 xs))
        = card {i. i < length (enumerate 0 xs) \<and> (\<lambda>(j, x). P j x) (enumerate 0 xs ! i)}"
    by (rule length_filter_conv_card)
  also have "{i. i < length (enumerate 0 xs) \<and> (\<lambda>(j, x). P j x) (enumerate 0 xs ! i)}
             = {i. i < length xs \<and> P i (xs ! i)}"
    by (auto simp: nth_enumerate_eq)
  finally show ?thesis .
qed

lemma correctCount_card:
  "correctCount (score q) =
     card {i. i < length (quizData q) \<and>
              slot_at (userAnswers q) i = Selected (answerIndex (quizData q ! i))}"
  by (simp add: score_def Let_def results_forEach_enumerate count_enumerate_card)

lemma correctCount_le_total: "correctCount (score q) \<le> total (score q)"
proof -
  have "length (filter (\<lambda>(j, question). slot_at (userAnswers q) j = Selected (answerIndex question))
                  (enumerate 0 (quizData q))) \<le> length (enumerate 0 (quizData q))"
    by (rule length_filter_le)
  then show ?thesis
    by (simp add: score_def Let_def results_forEach_enumerate)
qed

lemma total_score: "total (score q) = length (quizData q)"
  by (simp add: score_def Let_def)

lemma percent_score:
  "percent (score q) = scorePercentage (correctCount (score q)) (total (score q))"
  by (simp add: score_def Let_def)

lemma review_enumerate:
  "review q =
     map (\<lambda>(i, question). incorrect_question question (slot_at (userAnswers q) i))
       (filter (\<lambda>(i, question). slot_at (userAnswers q) i \<noteq> Selected (answerIndex question))
          (enumerate 0 (quizData q)))"
  by (simp add: review_def results_forEach_enumerate)

lemma review_length: "length (review q) + correctCount (score q) = length (quizData q)"
proof -
  let ?P = "\<lambda>(j, question). slot_at (userAnswers q) j = Selected (answerIndex question)"
  let ?Q = "\<lambda>(j, question). slot_at (userAnswers q) j \<noteq> Selected (answerIndex question)"
  have eq: "(\<lambda>x. \<not> ?P x) = ?Q" by auto
  have "length (filter ?P (enumerate 0 (quizData q)))
        + length (filter (\<lambda>x. \<not> ?P x) (enumerate 0 (quizData q)))
        = length (enumerate 0 (quizData q))"
    by (rule sum_length_filter_compl)
  then have "length (filter ?P (enumerate 0 (quizData q)))
        + length (filter ?Q (enumerate 0 (quizData q))) = length (quizData q)"
    by (simp only: eq length_enumerate)
  moreover have "length (review q) = length (filter ?Q (enumerate 0 (quizData q)))"
    by (simp only: review_enumerate length_map)
  moreover have "correctCount (score q) = length (filter ?P (enumerate 0 (quizData q)))"
    by (simp add: score_def Let_def results_forEach_enumerate)
  ultimately show ?thesis by linarith
qed

lemma results_forEach_scenario:
  "results_forEach scenario_quiz 0 [Selected 1, Selected 0, Selected 1] (0, []) =
     (2, [\<lparr>entry_stem = ''Q3'', chosenOptionText = ''c1'', correctOptionText = ''c2''\<rparr>])"
  by (simp add: scenario_quiz_def slot_at_def incorrect_question_def option_text_def)

lemma length_scenario_quiz: "length scenario_quiz = 3"
  by (simp add: scenario_quiz_def)

lemma quizData_scenario: "quizData scenario_session = scenario_quiz"
  by (simp add: scenario_session_def)

lemma userAnswers_scenario:
  "userAnswers scenario_session = [Selected 1, Selected 0, Selected 1]"
  by (simp add: scenario_session_def)

lemma score_scenario:
  "score scenario_session = \<lparr>correctCount = 2, total = 3, percent = Percent 67\<rparr>"
  by (simp only: score_def quizData_scenario userAnswers_scenario results_forEach_scenario
      length_scenario_quiz Let_def fst_conv scorePercentage_2_3)

lemma review_scenario:
  "review scenario_session =
     [\<lparr>entry_stem = ''Q3'', chosenOptionText = ''c1'', correctOptionText = ''c2''\<rparr>]"
  by (simp only: review_def quizData_scenario userAnswers_scenario results_forEach_scenario
      snd_conv)

lemma review_unanswered:
  "review (scenario_session\<lparr>userAnswers := [Selected 1, Null, Null]\<rparr>) =
     [\<lparr>entry_stem = ''Q2'', chosenOptionText = ''Not Answered'', correctOptionText = ''b0''\<rparr>,
      \<lparr>entry_stem = ''Q3'', chosenOptionText = ''Not Answered'', correctOptionText = ''c2''\<rparr>]"
  by (simp add: review_def scenario_session_def scenario_quiz_def slot_at_def
      incorrect_question_def option_text_def)

lemma correctCount_tie_session: "correctCount (score tie_session) = 23"
proof -
  have "{i. i < length (quizData tie_session) \<and>
            slot_at (userAnswers tie_session) i
              = Selected (answerIndex (quizData tie_session ! i))} = {..<23}"
    by (auto simp: tie_session_def tie_question_def slot_at_def nth_append)
  then show ?thesis by (simp add: correctCount_card)
qed

lemma score_tie_session:
  "score tie_session = \<lparr>correctCount = 23, total = 40, percent = Percent 57\<rparr>"
proof -
  have t: "total (score tie_session) = 40"
    by (simp add: total_score tie_session_def)
  have p: "percent (score tie_session) = Percent 57"
    by (simp only: percent_score correctCount_tie_session t scorePercentage_23_40)
  show ?thesis
    using correctCount_tie_session t p by (cases "score tie_session") simp
qed

text \<open>
  C1, as the code has it. For a session over a lesson with at least one question and
  any answers array, the score has \<open>total\<close> equal to the number of questions and
  \<open>correctCount\<close> equal to the number of indices whose recorded answer is the question's
  \<open>answerIndex\<close> (so a slot that is \<^verbatim>\<open>null\<close> never counts), and \<open>correctCount\<close> lies
  between 0 and \<open>total\<close>. The percentage is \<^verbatim>\<open>Math.round((correctCount / total) * 100)\<close>
  in double precision: 0 for no correct answer, and otherwise the number that the three
  steps of the standard determine. For any length an array can have it is an integer
  nearest to \<open>100 * correctCount / total\<close>, and it is the exactly rounded value unless
  the exact value is a tie; at a tie it is what the steps give, 8 for 3 of 40 and 57 for
  23 of 40. For the scenario's session the score is 2 of 3, 67 percent.
\<close>

theorem score_counts_and_rounds_in_double:
  assumes "quizData q \<noteq> []"
  shows "total (score q) = length (quizData q)
    \<and> correctCount (score q) =
        card {i. i < length (quizData q) \<and>
                 slot_at (userAnswers q) i = Selected (answerIndex (quizData q ! i))}
    \<and> correctCount (score q) \<le> total (score q)
    \<and> (correctCount (score q) = 0 \<longrightarrow> percent (score q) = Percent 0)
    \<and> (0 < correctCount (score q) \<longrightarrow>
         (\<exists>e m s k. double_percentage_steps (correctCount (score q)) (total (score q)) e m s k))
    \<and> (\<forall>e m s k. 0 < correctCount (score q)
           \<and> double_percentage_steps (correctCount (score q)) (total (score q)) e m s k \<longrightarrow>
           percent (score q) = Percent ((2 * (k * 2 ^ s) + 2 ^ e) div 2 ^ (e + 1)))
    \<and> (length (quizData q) < 2 ^ 32 \<longrightarrow>
         (\<exists>p. percent (score q) = Percent p
            \<and> 2 * total (score q) * p \<le> 200 * correctCount (score q) + total (score q)
            \<and> 200 * correctCount (score q) \<le> 2 * total (score q) * p + total (score q)
            \<and> ((200 * correctCount (score q)) mod (2 * total (score q)) \<noteq> total (score q)
                 \<longrightarrow> p = spec_percentage (correctCount (score q)) (total (score q)))))
    \<and> score scenario_session = \<lparr>correctCount = 2, total = 3, percent = Percent 67\<rparr>
    \<and> scorePercentage 3 40 = Percent 8
    \<and> scorePercentage 23 40 = Percent 57"
proof -
  have n: "total (score q) \<noteq> 0" using assms by (simp add: total_score)
  have zero: "correctCount (score q) = 0 \<longrightarrow> percent (score q) = Percent 0"
    using n by (simp add: percent_score scorePercentage_def)
  have ex: "0 < correctCount (score q) \<longrightarrow>
         (\<exists>e m s k. double_percentage_steps (correctCount (score q)) (total (score q)) e m s k)"
    using double_steps_exist [of "correctCount (score q)" "total (score q)"]
      correctCount_le_total [of q]
    by blast
  have all: "\<forall>e m s k. 0 < correctCount (score q)
           \<and> double_percentage_steps (correctCount (score q)) (total (score q)) e m s k \<longrightarrow>
           percent (score q) = Percent ((2 * (k * 2 ^ s) + 2 ^ e) div 2 ^ (e + 1))"
  proof (intro allI impI)
    fix e m s k
    assume h: "0 < correctCount (score q)
           \<and> double_percentage_steps (correctCount (score q)) (total (score q)) e m s k"
    then have "scorePercentage (correctCount (score q)) (total (score q))
        = Percent ((2 * (k * 2 ^ s) + 2 ^ e) div 2 ^ (e + 1))"
      using scorePercentage_steps [of "correctCount (score q)" "total (score q)" e m s k]
        correctCount_le_total [of q]
      by blast
    then show "percent (score q) = Percent ((2 * (k * 2 ^ s) + 2 ^ e) div 2 ^ (e + 1))"
      by (simp only: percent_score)
  qed
  have pct: "percent (score q) =
        Percent (if correctCount (score q) = 0 then 0
                 else Math_round (double_times_100
                        (double_divide (correctCount (score q)) (total (score q)))))"
    using n by (simp add: percent_score scorePercentage_def)
  have near: "\<exists>p. percent (score q) = Percent p
            \<and> 2 * total (score q) * p \<le> 200 * correctCount (score q) + total (score q)
            \<and> 200 * correctCount (score q) \<le> 2 * total (score q) * p + total (score q)
            \<and> ((200 * correctCount (score q)) mod (2 * total (score q)) \<noteq> total (score q)
                 \<longrightarrow> p = spec_percentage (correctCount (score q)) (total (score q)))"
    if small: "length (quizData q) < 2 ^ 32"
  proof (cases "correctCount (score q) = 0")
    case True
    with pct n show ?thesis by (simp add: spec_percentage_def)
  next
    case False
    then have pos: "0 < correctCount (score q)" by simp
    have small': "total (score q) < 2 ^ 32" using small by (simp add: total_score)
    from percentage_nearest [OF pos correctCount_le_total small']
      percentage_half_up [OF pos correctCount_le_total small']
    show ?thesis using pct False by (simp add: spec_percentage_def)
  qed
  then have near': "length (quizData q) < 2 ^ 32 \<longrightarrow>
         (\<exists>p. percent (score q) = Percent p
            \<and> 2 * total (score q) * p \<le> 200 * correctCount (score q) + total (score q)
            \<and> 200 * correctCount (score q) \<le> 2 * total (score q) * p + total (score q)
            \<and> ((200 * correctCount (score q)) mod (2 * total (score q)) \<noteq> total (score q)
                 \<longrightarrow> p = spec_percentage (correctCount (score q)) (total (score q))))"
    by blast
  from total_score correctCount_card correctCount_le_total zero ex all near' score_scenario
    scorePercentage_3_40 scorePercentage_23_40
  show ?thesis by blast
qed

theorem score_counts_and_rounds_in_double_scenario:
  "quizData scenario_session \<noteq> []
   \<and> 0 < correctCount (score scenario_session)
   \<and> double_percentage_steps (correctCount (score scenario_session))
        (total (score scenario_session)) 53 6004799503160661 7 4691249611844266
   \<and> percent (score scenario_session)
       = Percent ((2 * (4691249611844266 * 2 ^ 7) + 2 ^ 53) div 2 ^ (53 + 1))
   \<and> length (quizData scenario_session) < 2 ^ 32
   \<and> (200 * correctCount (score scenario_session)) mod (2 * total (score scenario_session))
       \<noteq> total (score scenario_session)
   \<and> percent (score scenario_session)
       = Percent (spec_percentage (correctCount (score scenario_session))
                    (total (score scenario_session)))
   \<and> total (score scenario_session) = length (quizData scenario_session)
   \<and> correctCount (score scenario_session) \<le> total (score scenario_session)
   \<and> score scenario_session = \<lparr>correctCount = 2, total = 3, percent = Percent 67\<rparr>"
proof -
  have ne: "quizData scenario_session \<noteq> []"
    by (simp add: scenario_session_def scenario_quiz_def)
  have pos: "0 < correctCount (score scenario_session)"
    by (simp add: score_scenario)
  have st: "double_percentage_steps (correctCount (score scenario_session))
        (total (score scenario_session)) 53 6004799503160661 7 4691249611844266"
    using steps_2_3 by (simp add: score_scenario)
  have small: "length (quizData scenario_session) < 2 ^ 32"
    by (simp add: quizData_scenario length_scenario_quiz)
  have no_tie: "(200 * correctCount (score scenario_session))
       mod (2 * total (score scenario_session)) \<noteq> total (score scenario_session)"
    by (simp add: score_scenario)
  note t = score_counts_and_rounds_in_double [OF ne]
  from t pos st have 1: "percent (score scenario_session)
       = Percent ((2 * (4691249611844266 * 2 ^ 7) + 2 ^ 53) div 2 ^ (53 + 1))"
    by blast
  from t small no_tie have 2: "percent (score scenario_session)
       = Percent (spec_percentage (correctCount (score scenario_session))
                    (total (score scenario_session)))"
    by auto
  from t ne pos st 1 small no_tie 2 show ?thesis by blast
qed

text \<open>
  With 23 of 40 answers correct the exact percentage is \<open>57.5\<close>, which rounds to 58;
  the quotient \<open>23 / 40\<close> is no double, the product comes out just below \<open>57.5\<close>, and
  the score shows 57.
\<close>

theorem score_percentage_below_exact_tie:
  "score tie_session = \<lparr>correctCount = 23, total = 40, percent = Percent 57\<rparr>
   \<and> spec_percentage 23 40 = 58
   \<and> percent (score tie_session)
       \<noteq> Percent (spec_percentage (correctCount (score tie_session))
                     (total (score tie_session)))"
  by (simp add: score_tie_session spec_percentage_23_40)

text \<open>
  C2. The review holds one record for each question whose recorded answer is not the
  question's \<open>answerIndex\<close> (unanswered or wrong), in the order of the questions, and
  none for the others; a question is either counted as correct or has its record; the
  record of an unanswered question reads "Not Answered".
\<close>

theorem review_lists_unmatched_questions:
  "review q =
     map (\<lambda>(i, question). incorrect_question question (slot_at (userAnswers q) i))
       (filter (\<lambda>(i, question). slot_at (userAnswers q) i \<noteq> Selected (answerIndex question))
          (enumerate 0 (quizData q)))
   \<and> length (review q) + correctCount (score q) = length (quizData q)
   \<and> incorrect_question question Null =
       \<lparr>entry_stem = stem question, chosenOptionText = ''Not Answered'',
        correctOptionText = option_text (options question) (answerIndex question)\<rparr>
   \<and> incorrect_question question (Selected k) =
       \<lparr>entry_stem = stem question, chosenOptionText = option_text (options question) k,
        correctOptionText = option_text (options question) (answerIndex question)\<rparr>"
proof (intro conjI)
  show "review q =
     map (\<lambda>(i, question). incorrect_question question (slot_at (userAnswers q) i))
       (filter (\<lambda>(i, question). slot_at (userAnswers q) i \<noteq> Selected (answerIndex question))
          (enumerate 0 (quizData q)))"
    by (rule review_enumerate)
  show "length (review q) + correctCount (score q) = length (quizData q)"
    by (rule review_length)
qed (simp_all add: incorrect_question_def)

theorem review_lists_unmatched_questions_scenario:
  "review scenario_session =
     [\<lparr>entry_stem = ''Q3'', chosenOptionText = ''c1'', correctOptionText = ''c2''\<rparr>]
   \<and> length (review scenario_session) + correctCount (score scenario_session)
       = length (quizData scenario_session)
   \<and> review (scenario_session\<lparr>userAnswers := [Selected 1, Null, Null]\<rparr>) =
     [\<lparr>entry_stem = ''Q2'', chosenOptionText = ''Not Answered'', correctOptionText = ''b0''\<rparr>,
      \<lparr>entry_stem = ''Q3'', chosenOptionText = ''Not Answered'', correctOptionText = ''c2''\<rparr>]"
proof -
  from review_lists_unmatched_questions [of scenario_session]
  have "length (review scenario_session) + correctCount (score scenario_session)
        = length (quizData scenario_session)"
    by blast
  with review_scenario review_unanswered show ?thesis by blast
qed

section \<open>Rendering a state\<close>

lemma after_Inl [simp]: "after (Inl (e, a)) = a"
  by (simp add: after_def)

lemma after_Inr [simp]: "after (Inr a) = a"
  by (simp add: after_def)

lemma renderLessonDetail_find_lesson:
  "renderLessonDetail cid sid lid a =
     (case find_lesson (data a) cid sid lid of
        None \<Rightarrow> Inl (TypeError, a)
      | Some lesson \<Rightarrow>
          Inr (updateView (LessonDetailView cid sid lid) (Some (Lesson cid sid lid)) a))"
  by (simp add: renderLessonDetail_def find_lesson_def split: option.splits)

lemma renderQuiz_find_lesson:
  "renderQuiz cid sid lid a =
     (case find_lesson (data a) cid sid lid of
        None \<Rightarrow> Inl (TypeError, a)
      | Some lesson \<Rightarrow> renderCurrentQuestion (fresh_session cid sid lid lesson) a)"
  by (simp add: renderQuiz_def find_lesson_def fresh_session_def split: option.splits)

lemma renderCurrentQuestion_in_range:
  "currentQuestionIndex q < length (quizData q) \<Longrightarrow>
   renderCurrentQuestion q a =
     Inr (a\<lparr>appContainer :=
              QuestionView (currentQuestionIndex q)
                (length (options (quizData q ! currentQuestionIndex q))) False False,
            navigationStack :=
              navigationStack a @ [Quiz (courseId q) (subjectId q) (lessonId q)],
            session := Some q\<rparr>)"
  by (simp add: renderCurrentQuestion_def question_at_def updateView_def)

lemma renderCurrentQuestion_out_of_range:
  "\<not> currentQuestionIndex q < length (quizData q) \<Longrightarrow>
   renderCurrentQuestion q a = Inl (TypeError, a)"
  by (simp add: renderCurrentQuestion_def question_at_def)

lemma renderQuiz_resolved:
  assumes "find_lesson (data a) cid sid lid = Some lesson" and "quiz lesson \<noteq> []"
  shows "renderQuiz cid sid lid a =
     Inr (a\<lparr>appContainer := QuestionView 0 (length (options (hd (quiz lesson)))) False False,
            navigationStack := navigationStack a @ [Quiz cid sid lid],
            session := Some (fresh_session cid sid lid lesson)\<rparr>)"
proof -
  have "currentQuestionIndex (fresh_session cid sid lid lesson)
        < length (quizData (fresh_session cid sid lid lesson))"
    using assms(2) by (simp add: fresh_session_def)
  then show ?thesis
    using assms by (simp add: renderQuiz_find_lesson renderCurrentQuestion_in_range)
       (simp add: fresh_session_def hd_conv_nth)
qed

lemma renderView_resolved:
  assumes "resolves (data a) x" and "x \<noteq> Courses"
  shows "\<exists>a'. renderView x a = Inr a' \<and> displays a' x
           \<and> navigationStack a' = navigationStack a @ [x] \<and> data a' = data a"
proof (cases x)
  case Courses
  with assms show ?thesis by simp
next
  case (Subjects cid)
  with assms show ?thesis
    by (auto simp: renderSubjectList_def updateView_def)
next
  case (Lessons cid sid)
  with assms show ?thesis
    by (auto simp: renderLessonList_def updateView_def split: option.splits)
next
  case (Lesson cid sid lid)
  with assms show ?thesis
    by (auto simp: renderLessonDetail_find_lesson updateView_def split: option.splits)
next
  case (Quiz cid sid lid)
  with assms obtain lesson where
    l: "find_lesson (data a) cid sid lid = Some lesson" "quiz lesson \<noteq> []"
    by (auto split: option.splits)
  show ?thesis
    unfolding Quiz by (simp add: renderQuiz_resolved [OF l] fresh_session_def)
qed

section \<open>Runs of the scenario\<close>

lemma run_snoc: "run d (evs @ [ev]) = step (run d evs) ev"
  by (simp add: run_def)

lemma run_Nil: "run d [] = \<lparr>appContainer = CourseListView, data = d, navigationStack = [], session = None\<rparr>"
  by (simp add: run_def init_def renderCourseList_def updateView_def)

lemma courses_scenario [simp]: "courses scenario_db ''c'' = Some scenario_course"
  by (simp add: scenario_db_def)

lemma subjects_scenario [simp]: "subjects scenario_course = [scenario_subject]"
  by (simp add: scenario_course_def)

lemma subject_scenario [simp]:
  "subject_id scenario_subject = ''s''" "lessons scenario_subject = [scenario_lesson]"
  by (simp_all add: scenario_subject_def)

lemma lesson_scenario [simp]:
  "lesson_id scenario_lesson = ''l''" "quiz scenario_lesson = scenario_quiz"
  by (simp_all add: scenario_lesson_def)

lemma find_lesson_scenario: "find_lesson scenario_db ''c'' ''s'' ''l'' = Some scenario_lesson"
  by (simp add: find_lesson_def)

lemma find_lesson_scenario_missing: "find_lesson scenario_db ''c'' ''s'' ''x'' = None"
  by (simp add: find_lesson_def)

lemma hd_scenario_quiz: "length (options (hd scenario_quiz)) = 3"
  by (simp add: scenario_quiz_def)

lemma run_to_subjects:
  "run scenario_db [ClickCard ''c''] =
     \<lparr>appContainer = SubjectListView ''c'', data = scenario_db,
      navigationStack = [Subjects ''c''], session = None\<rparr>"
  using run_snoc [of scenario_db "[]" "ClickCard ''c''"]
  by (simp add: run_Nil step_def dispatch_def renderSubjectList_def updateView_def)

lemma run_to_lesson:
  "run scenario_db [ClickCard ''c'', ClickCard ''s'', ClickCard ''l''] =
     \<lparr>appContainer = LessonDetailView ''c'' ''s'' ''l'', data = scenario_db,
      navigationStack = [Subjects ''c'', Lessons ''c'' ''s'', Lesson ''c'' ''s'' ''l''],
      session = None\<rparr>"
proof -
  have 1: "run scenario_db [ClickCard ''c''] =
     \<lparr>appContainer = SubjectListView ''c'', data = scenario_db,
      navigationStack = [Subjects ''c''], session = None\<rparr>"
    using run_snoc [of scenario_db "[]" "ClickCard ''c''"]
    by (simp add: run_Nil step_def dispatch_def renderSubjectList_def updateView_def)
  have 2: "run scenario_db [ClickCard ''c'', ClickCard ''s''] =
     \<lparr>appContainer = LessonListView ''c'' ''s'', data = scenario_db,
      navigationStack = [Subjects ''c'', Lessons ''c'' ''s''], session = None\<rparr>"
    using run_snoc [of scenario_db "[ClickCard ''c'']" "ClickCard ''s''"]
    by (simp add: 1 step_def dispatch_def renderLessonList_def updateView_def)
  show ?thesis
    using run_snoc [of scenario_db "[ClickCard ''c'', ClickCard ''s'']" "ClickCard ''l''"]
    by (simp add: 2 step_def dispatch_def renderLessonDetail_find_lesson updateView_def
        find_lesson_scenario)
qed

lemma run_to_quiz:
  "run scenario_db to_quiz =
     \<lparr>appContainer = QuestionView 0 3 False False, data = scenario_db,
      navigationStack = [Subjects ''c'', Lessons ''c'' ''s'', Lesson ''c'' ''s'' ''l'',
                         Quiz ''c'' ''s'' ''l''],
      session = Some (fresh_session ''c'' ''s'' ''l'' scenario_lesson)\<rparr>"
proof -
  have ne: "quiz scenario_lesson \<noteq> []" by (simp add: scenario_quiz_def)
  have "run scenario_db to_quiz =
     step (run scenario_db [ClickCard ''c'', ClickCard ''s'', ClickCard ''l'']) ClickTest"
    using run_snoc [of scenario_db "[ClickCard ''c'', ClickCard ''s'', ClickCard ''l'']" ClickTest]
    by (simp add: to_quiz_def)
  then show ?thesis
    by (simp add: run_to_lesson step_def dispatch_def
        renderQuiz_resolved [OF _ ne] find_lesson_scenario hd_scenario_quiz)
qed

lemmas quiz_step_defs =
  step_def dispatch_def handleAnswerSelection_def handleNext_def handlePrev_def
  renderCurrentQuestion_def updateView_def slot_assign_def question_at_def Let_def

lemma run_select:
  "run scenario_db (to_quiz @ [ClickOption 1]) =
     \<lparr>appContainer = QuestionView 0 3 True True, data = scenario_db,
      navigationStack = [Subjects ''c'', Lessons ''c'' ''s'', Lesson ''c'' ''s'' ''l'',
                         Quiz ''c'' ''s'' ''l''],
      session = Some \<lparr>courseId = ''c'', subjectId = ''s'', lessonId = ''l'',
                      quizData = scenario_quiz, currentQuestionIndex = 0,
                      userAnswers = [Selected 1, Null, Null]\<rparr>\<rparr>"
  unfolding run_snoc run_to_quiz
  by (simp add: quiz_step_defs fresh_session_def) (simp add: scenario_quiz_def)

lemma run_select_next:
  "run scenario_db (to_quiz @ [ClickOption 1, ClickNext]) =
     \<lparr>appContainer = QuestionView 1 3 False False, data = scenario_db,
      navigationStack = [Subjects ''c'', Lessons ''c'' ''s'', Lesson ''c'' ''s'' ''l'',
                         Quiz ''c'' ''s'' ''l'', Quiz ''c'' ''s'' ''l''],
      session = Some \<lparr>courseId = ''c'', subjectId = ''s'', lessonId = ''l'',
                      quizData = scenario_quiz, currentQuestionIndex = 1,
                      userAnswers = [Selected 1, Null, Null]\<rparr>\<rparr>"
proof -
  have e: "to_quiz @ [ClickOption 1, ClickNext] = (to_quiz @ [ClickOption 1]) @ [ClickNext]"
    by simp
  show ?thesis
    unfolding e
    by (subst run_snoc, subst run_select) (simp add: quiz_step_defs scenario_quiz_def)
qed

lemma run_select_next_prev:
  "run scenario_db (to_quiz @ [ClickOption 1, ClickNext, ClickPrev]) =
     \<lparr>appContainer = QuestionView 0 3 False False, data = scenario_db,
      navigationStack = [Subjects ''c'', Lessons ''c'' ''s'', Lesson ''c'' ''s'' ''l'',
                         Quiz ''c'' ''s'' ''l'', Quiz ''c'' ''s'' ''l'', Quiz ''c'' ''s'' ''l''],
      session = Some \<lparr>courseId = ''c'', subjectId = ''s'', lessonId = ''l'',
                      quizData = scenario_quiz, currentQuestionIndex = 0,
                      userAnswers = [Selected 1, Null, Null]\<rparr>\<rparr>"
proof -
  have e: "to_quiz @ [ClickOption 1, ClickNext, ClickPrev]
           = (to_quiz @ [ClickOption 1, ClickNext]) @ [ClickPrev]"
    by simp
  show ?thesis
    unfolding e
    by (subst run_snoc, subst run_select_next) (simp add: quiz_step_defs scenario_quiz_def)
qed

lemma run_select_next_prev_select:
  "run scenario_db (to_quiz @ [ClickOption 1, ClickNext, ClickPrev, ClickOption 0]) =
     \<lparr>appContainer = QuestionView 0 3 True True, data = scenario_db,
      navigationStack = [Subjects ''c'', Lessons ''c'' ''s'', Lesson ''c'' ''s'' ''l'',
                         Quiz ''c'' ''s'' ''l'', Quiz ''c'' ''s'' ''l'', Quiz ''c'' ''s'' ''l''],
      session = Some \<lparr>courseId = ''c'', subjectId = ''s'', lessonId = ''l'',
                      quizData = scenario_quiz, currentQuestionIndex = 0,
                      userAnswers = [Selected 0, Null, Null]\<rparr>\<rparr>"
proof -
  have e: "to_quiz @ [ClickOption 1, ClickNext, ClickPrev, ClickOption 0]
           = (to_quiz @ [ClickOption 1, ClickNext, ClickPrev]) @ [ClickOption 0]"
    by simp
  show ?thesis
    unfolding e
    by (subst run_snoc, subst run_select_next_prev) (simp add: quiz_step_defs scenario_quiz_def)
qed

lemma run_next:
  "run scenario_db (to_quiz @ [ClickNext]) =
     \<lparr>appContainer = QuestionView 1 3 False False, data = scenario_db,
      navigationStack = [Subjects ''c'', Lessons ''c'' ''s'', Lesson ''c'' ''s'' ''l'',
                         Quiz ''c'' ''s'' ''l'', Quiz ''c'' ''s'' ''l''],
      session = Some \<lparr>courseId = ''c'', subjectId = ''s'', lessonId = ''l'',
                      quizData = scenario_quiz, currentQuestionIndex = 1,
                      userAnswers = [Null, Null, Null]\<rparr>\<rparr>"
  by (subst run_snoc, subst run_to_quiz)
     (simp add: quiz_step_defs fresh_session_def scenario_quiz_def)

lemma run_next_next:
  "run scenario_db (to_quiz @ [ClickNext, ClickNext]) =
     \<lparr>appContainer = QuestionView 2 3 False False, data = scenario_db,
      navigationStack = [Subjects ''c'', Lessons ''c'' ''s'', Lesson ''c'' ''s'' ''l'',
                         Quiz ''c'' ''s'' ''l'', Quiz ''c'' ''s'' ''l'', Quiz ''c'' ''s'' ''l''],
      session = Some \<lparr>courseId = ''c'', subjectId = ''s'', lessonId = ''l'',
                      quizData = scenario_quiz, currentQuestionIndex = 2,
                      userAnswers = [Null, Null, Null]\<rparr>\<rparr>"
proof -
  have e: "to_quiz @ [ClickNext, ClickNext] = (to_quiz @ [ClickNext]) @ [ClickNext]"
    by simp
  show ?thesis
    unfolding e
    by (subst run_snoc, subst run_next) (simp add: quiz_step_defs scenario_quiz_def)
qed

section \<open>Going back\<close>

lemma handleBack_empty:
  "navigationStack a = [] \<Longrightarrow> handleBack a = Inr (a\<lparr>appContainer := CourseListView\<rparr>)"
  by (cases a) (simp add: handleBack_def renderCourseList_def updateView_def)

lemma handleBack_single:
  "handleBack (a\<lparr>navigationStack := [s]\<rparr>) =
     Inr (a\<lparr>appContainer := CourseListView, navigationStack := []\<rparr>)"
  by (simp add: handleBack_def renderCourseList_def updateView_def)

lemma handleBack_pops_twice:
  "handleBack (a\<lparr>navigationStack := st @ [x, s]\<rparr>) = renderView x (a\<lparr>navigationStack := st\<rparr>)"
  by (simp add: handleBack_def butlast_append)

text \<open>
  C4. \<^verbatim>\<open>handleBack\<close> on an empty navigation stack shows the root course list and
  does not throw. After one push onto a stack whose top is \<open>x\<close> (the state that was
  current before the push), \<^verbatim>\<open>handleBack\<close> shows the page of \<open>x\<close> and leaves the stack
  as it was before the push, \<open>x\<close> on top again: the second pop takes \<open>x\<close> off and its
  rendering pushes it back, so no entry below \<open>x\<close> is touched. After one push onto the
  empty stack (the course list was current) it shows the course list.
\<close>

theorem handleBack_returns_to_previous:
  "(navigationStack a = [] \<longrightarrow> handleBack a = Inr (a\<lparr>appContainer := CourseListView\<rparr>))
   \<and> handleBack (a\<lparr>navigationStack := [s]\<rparr>) =
       Inr (a\<lparr>appContainer := CourseListView, navigationStack := []\<rparr>)
   \<and> (resolves (data a) x \<and> x \<noteq> Courses \<longrightarrow>
        (\<exists>a'. handleBack (a\<lparr>navigationStack := st @ [x, s]\<rparr>) = Inr a'
           \<and> displays a' x \<and> navigationStack a' = st @ [x]))"
proof (intro conjI impI)
  assume "navigationStack a = []"
  then show "handleBack a = Inr (a\<lparr>appContainer := CourseListView\<rparr>)"
    by (rule handleBack_empty)
next
  show "handleBack (a\<lparr>navigationStack := [s]\<rparr>) =
       Inr (a\<lparr>appContainer := CourseListView, navigationStack := []\<rparr>)"
    by (rule handleBack_single)
next
  assume h: "resolves (data a) x \<and> x \<noteq> Courses"
  then have "resolves (data (a\<lparr>navigationStack := st\<rparr>)) x" by simp
  from renderView_resolved [OF this] h
  obtain a' where "renderView x (a\<lparr>navigationStack := st\<rparr>) = Inr a'" "displays a' x"
    "navigationStack a' = st @ [x]"
    by auto
  then show "\<exists>a'. handleBack (a\<lparr>navigationStack := st @ [x, s]\<rparr>) = Inr a'
           \<and> displays a' x \<and> navigationStack a' = st @ [x]"
    by (simp add: handleBack_pops_twice)
qed

theorem handleBack_returns_to_previous_scenario:
  "navigationStack (run scenario_db []) = []
   \<and> handleBack (run scenario_db []) = Inr (run scenario_db [])
   \<and> resolves (data (run scenario_db to_quiz)) (Lesson ''c'' ''s'' ''l'')
   \<and> displays (after (handleBack (run scenario_db to_quiz))) (Lesson ''c'' ''s'' ''l'')
   \<and> navigationStack (after (handleBack (run scenario_db to_quiz)))
       = [Subjects ''c'', Lessons ''c'' ''s'', Lesson ''c'' ''s'' ''l'']"
proof -
  have e: "navigationStack (run scenario_db []) = []" by (simp add: run_Nil)
  from handleBack_returns_to_previous [where a = "run scenario_db []"] e
  have 1: "handleBack (run scenario_db []) = Inr (run scenario_db [])"
    by (simp add: run_Nil)
  have r: "resolves (data (run scenario_db to_quiz)) (Lesson ''c'' ''s'' ''l'')"
    by (simp add: run_to_quiz find_lesson_scenario)
  have s: "(run scenario_db to_quiz)\<lparr>navigationStack :=
             [Subjects ''c'', Lessons ''c'' ''s''] @ [Lesson ''c'' ''s'' ''l'', Quiz ''c'' ''s'' ''l'']\<rparr>
           = run scenario_db to_quiz"
    by (simp add: run_to_quiz)
  from handleBack_returns_to_previous [where a = "run scenario_db to_quiz"
      and x = "Lesson ''c'' ''s'' ''l''" and st = "[Subjects ''c'', Lessons ''c'' ''s'']"
      and s = "Quiz ''c'' ''s'' ''l''"] r
  obtain a' where "handleBack ((run scenario_db to_quiz)\<lparr>navigationStack :=
             [Subjects ''c'', Lessons ''c'' ''s''] @ [Lesson ''c'' ''s'' ''l'', Quiz ''c'' ''s'' ''l'']\<rparr>)
             = Inr a'" "displays a' (Lesson ''c'' ''s'' ''l'')"
      "navigationStack a' = [Subjects ''c'', Lessons ''c'' ''s''] @ [Lesson ''c'' ''s'' ''l'']"
    by auto
  then have "displays (after (handleBack (run scenario_db to_quiz))) (Lesson ''c'' ''s'' ''l'')"
    "navigationStack (after (handleBack (run scenario_db to_quiz)))
       = [Subjects ''c'', Lessons ''c'' ''s'', Lesson ''c'' ''s'' ''l'']"
    unfolding s by simp_all
  with e 1 r show ?thesis by blast
qed

section \<open>Ids that do not resolve\<close>

text \<open>
  C5, as the code has it. For ids that do not lead to a lesson, \<^verbatim>\<open>renderQuiz\<close> (and
  \<^verbatim>\<open>renderLessonDetail\<close>, which makes the same lookups) throws a \<^verbatim>\<open>TypeError\<close> before it
  changes anything: no session is created, and page, stack and session stay as they
  were. There is no redirect to the course list.
\<close>

theorem renderQuiz_unresolved_throws:
  "find_lesson (data a) cid sid lid = None \<Longrightarrow>
   renderQuiz cid sid lid a = Inl (TypeError, a)
   \<and> after (renderQuiz cid sid lid a) = a
   \<and> renderLessonDetail cid sid lid a = Inl (TypeError, a)"
  by (simp add: renderQuiz_find_lesson renderLessonDetail_find_lesson)

theorem renderQuiz_unresolved_throws_scenario:
  "find_lesson (data (run scenario_db [ClickCard ''c''])) ''c'' ''s'' ''x'' = None
   \<and> renderQuiz ''c'' ''s'' ''x'' (run scenario_db [ClickCard ''c''])
       = Inl (TypeError, run scenario_db [ClickCard ''c''])
   \<and> after (renderQuiz ''c'' ''s'' ''x'' (run scenario_db [ClickCard ''c'']))
       = run scenario_db [ClickCard ''c'']"
proof -
  have f: "find_lesson (data (run scenario_db [ClickCard ''c''])) ''c'' ''s'' ''x'' = None"
    by (simp add: run_to_subjects find_lesson_scenario_missing)
  from renderQuiz_unresolved_throws [OF f] f show ?thesis by simp
qed

text \<open>
  On the scenario's lesson page a quiz for the unknown lesson \<^verbatim>\<open>x\<close> is requested: the
  call throws and the lesson page stays; the course list is not shown.
\<close>

theorem renderQuiz_unresolved_no_redirect:
  "find_lesson scenario_db ''c'' ''s'' ''x'' = None
   \<and> appContainer (after (renderQuiz ''c'' ''s'' ''x''
        (run scenario_db [ClickCard ''c'', ClickCard ''s'', ClickCard ''l''])))
       = LessonDetailView ''c'' ''s'' ''l''
   \<and> appContainer (after (renderQuiz ''c'' ''s'' ''x''
        (run scenario_db [ClickCard ''c'', ClickCard ''s'', ClickCard ''l''])))
       \<noteq> CourseListView
   \<and> renderQuiz ''c'' ''s'' ''x''
        (run scenario_db [ClickCard ''c'', ClickCard ''s'', ClickCard ''l''])
       = Inl (TypeError, run scenario_db [ClickCard ''c'', ClickCard ''s'', ClickCard ''l''])"
  by (simp add: renderQuiz_find_lesson run_to_lesson find_lesson_scenario_missing)

section \<open>Selecting an answer\<close>

lemma session_after_handleAnswerSelection:
  "session (after (handleAnswerSelection k q a)) =
     Some (q\<lparr>userAnswers :=
               slot_assign (userAnswers q) (currentQuestionIndex q) (Selected k)\<rparr>)"
  by (simp add: handleAnswerSelection_def Let_def split: view.splits option.splits)

lemma handleAnswerSelection_disables:
  "appContainer a = QuestionView shown n d x \<Longrightarrow>
   \<exists>x'. appContainer (after (handleAnswerSelection k q a)) = QuestionView shown n True x'"
  by (auto simp: handleAnswerSelection_def Let_def split: option.splits)

lemma renderCurrentQuestion_enables:
  "renderCurrentQuestion q a = Inr a' \<Longrightarrow>
   \<exists>n. appContainer a' = QuestionView (currentQuestionIndex q) n False False"
  by (auto simp: renderCurrentQuestion_def updateView_def split: option.splits)

lemma click_disabled_option:
  "appContainer a = QuestionView shown n True x \<Longrightarrow> step a (ClickOption j) = a"
  by (simp add: step_def dispatch_def split: option.splits)

text \<open>
  C3, as the code has it. \<^verbatim>\<open>handleAnswerSelection\<close> always stores the selected index in
  the slot of the current question, whatever the slot held, and changes no other slot
  and not the current index. Nothing in the session rejects a second selection: what
  prevents it is the page, whose option buttons are disabled by a selection (a click on
  them then does nothing), and each rendering of a question shows enabled buttons again.
\<close>

theorem handleAnswerSelection_overwrites:
  "session (after (handleAnswerSelection k q a)) =
     Some (q\<lparr>userAnswers :=
               slot_assign (userAnswers q) (currentQuestionIndex q) (Selected k)\<rparr>)
   \<and> (currentQuestionIndex q < length (userAnswers q) \<longrightarrow>
        slot_assign (userAnswers q) (currentQuestionIndex q) (Selected k)
          = (userAnswers q)[currentQuestionIndex q := Selected k])
   \<and> (appContainer a = QuestionView shown n d x \<longrightarrow>
        (\<exists>x'. appContainer (after (handleAnswerSelection k q a)) = QuestionView shown n True x'))
   \<and> (appContainer a = QuestionView shown n True x \<longrightarrow> step a (ClickOption j) = a)
   \<and> (renderCurrentQuestion q a = Inr a' \<longrightarrow>
        (\<exists>n. appContainer a' = QuestionView (currentQuestionIndex q) n False False))"
  using session_after_handleAnswerSelection handleAnswerSelection_disables
    click_disabled_option renderCurrentQuestion_enables
  by (simp add: slot_assign_def)

theorem handleAnswerSelection_overwrites_scenario:
  "currentQuestionIndex (fresh_session ''c'' ''s'' ''l'' scenario_lesson\<lparr>userAnswers := [Selected 1, Null, Null]\<rparr>)
     < length (userAnswers (fresh_session ''c'' ''s'' ''l'' scenario_lesson\<lparr>userAnswers := [Selected 1, Null, Null]\<rparr>))
   \<and> session (run scenario_db (to_quiz @ [ClickOption 1]))
       = Some (fresh_session ''c'' ''s'' ''l'' scenario_lesson\<lparr>userAnswers := [Selected 1, Null, Null]\<rparr>)
   \<and> session (after (handleAnswerSelection 2
                 (fresh_session ''c'' ''s'' ''l'' scenario_lesson\<lparr>userAnswers := [Selected 1, Null, Null]\<rparr>)
                 (run scenario_db (to_quiz @ [ClickOption 1]))))
       = Some (fresh_session ''c'' ''s'' ''l'' scenario_lesson\<lparr>userAnswers := [Selected 2, Null, Null]\<rparr>)
   \<and> appContainer (run scenario_db (to_quiz @ [ClickOption 1])) = QuestionView 0 3 True True
   \<and> step (run scenario_db (to_quiz @ [ClickOption 1])) (ClickOption 2)
       = run scenario_db (to_quiz @ [ClickOption 1])
   \<and> renderCurrentQuestion
         (fresh_session ''c'' ''s'' ''l'' scenario_lesson\<lparr>userAnswers := [Selected 1, Null, Null]\<rparr>)
         (run scenario_db (to_quiz @ [ClickOption 1]))
       = Inr (after (renderCurrentQuestion
                (fresh_session ''c'' ''s'' ''l'' scenario_lesson\<lparr>userAnswers := [Selected 1, Null, Null]\<rparr>)
                (run scenario_db (to_quiz @ [ClickOption 1]))))
   \<and> appContainer (after (renderCurrentQuestion
                (fresh_session ''c'' ''s'' ''l'' scenario_lesson\<lparr>userAnswers := [Selected 1, Null, Null]\<rparr>)
                (run scenario_db (to_quiz @ [ClickOption 1]))))
       = QuestionView 0 3 False False"
proof -
  let ?a = "run scenario_db (to_quiz @ [ClickOption 1])"
  let ?q = "fresh_session ''c'' ''s'' ''l'' scenario_lesson\<lparr>userAnswers := [Selected 1, Null, Null]\<rparr>"
  have i: "currentQuestionIndex ?q < length (userAnswers ?q)"
    by (simp add: fresh_session_def)
  have s: "session ?a = Some ?q"
    by (subst run_select) (simp add: fresh_session_def)
  have v: "appContainer ?a = QuestionView 0 3 True True"
    by (subst run_select) simp
  have rc: "renderCurrentQuestion ?q ?a = Inr (after (renderCurrentQuestion ?q ?a))"
    by (simp add: renderCurrentQuestion_def question_at_def fresh_session_def
        scenario_quiz_def)
  note t = handleAnswerSelection_overwrites [where k = 2 and q = ?q and a = ?a
      and shown = 0 and n = 3 and d = True and x = True and j = 2
      and a' = "after (renderCurrentQuestion ?q ?a)"]
  from t i have "session (after (handleAnswerSelection 2 ?q ?a))
       = Some (fresh_session ''c'' ''s'' ''l'' scenario_lesson\<lparr>userAnswers := [Selected 2, Null, Null]\<rparr>)"
    by (simp add: fresh_session_def)
  moreover from t v have "step ?a (ClickOption 2) = ?a" by blast
  moreover from t rc have "\<exists>n. appContainer (after (renderCurrentQuestion ?q ?a))
       = QuestionView (currentQuestionIndex ?q) n False False"
    by blast
  then have "appContainer (after (renderCurrentQuestion ?q ?a)) = QuestionView 0 3 False False"
    by (auto simp: renderCurrentQuestion_def question_at_def fresh_session_def
        scenario_quiz_def updateView_def)
  ultimately show ?thesis using i s v rc by blast
qed

text \<open>
  In the scenario's quiz the first question is answered with option 1; after "Next" and
  "Previous" the same question is on the page with enabled buttons, and a click on
  option 0 replaces the recorded answer.
\<close>

theorem reselect_after_navigation_overwrites:
  "map_option userAnswers
     (session (run scenario_db (to_quiz @ [ClickOption 1, ClickNext, ClickPrev])))
     = Some [Selected 1, Null, Null]
   \<and> map_option currentQuestionIndex
     (session (run scenario_db (to_quiz @ [ClickOption 1, ClickNext, ClickPrev])))
     = Some 0
   \<and> map_option userAnswers
     (session (run scenario_db (to_quiz @ [ClickOption 1, ClickNext, ClickPrev, ClickOption 0])))
     = Some [Selected 0, Null, Null]"
  unfolding run_select_next_prev run_select_next_prev_select by simp

section \<open>The current index\<close>

lemma renderResults_session: "session (renderResults q a) = Some q"
  by (simp add: renderResults_def updateView_def split: option.splits)

lemma handleNext_in_range:
  assumes "currentQuestionIndex q < length (quizData q)"
  shows "\<exists>q'. session (after (handleNext q a)) = Some q' \<and> quizData q' = quizData q
           \<and> currentQuestionIndex q' < length (quizData q')"
proof (cases "int (currentQuestionIndex q) < int (length (quizData q)) - 1")
  case True
  then have "currentQuestionIndex q + 1 < length (quizData q)" by simp
  then show ?thesis
    using True by (simp add: handleNext_def Let_def renderCurrentQuestion_in_range)
next
  case False
  then show ?thesis using assms by (simp add: handleNext_def renderResults_session)
qed

lemma handlePrev_in_range:
  assumes "currentQuestionIndex q < length (quizData q)" and "session a = Some q"
  shows "\<exists>q'. session (after (handlePrev q a)) = Some q' \<and> quizData q' = quizData q
           \<and> currentQuestionIndex q' < length (quizData q')"
proof (cases "currentQuestionIndex q > 0")
  case True
  then have "currentQuestionIndex q - 1 < length (quizData q)" using assms by simp
  then show ?thesis
    using True by (simp add: handlePrev_def Let_def renderCurrentQuestion_in_range)
next
  case False
  then show ?thesis using assms by (simp add: handlePrev_def)
qed

lemma apply_op_in_range:
  assumes "session a = Some q" and "currentQuestionIndex q < length (quizData q)"
  shows "\<exists>q'. session (apply_op a op) = Some q' \<and> quizData q' = quizData q
           \<and> currentQuestionIndex q' < length (quizData q')"
proof (cases op)
  case Next
  then show ?thesis using assms handleNext_in_range [OF assms(2)] by (simp add: apply_op_def)
next
  case Prev
  then show ?thesis
    using assms handlePrev_in_range [OF assms(2) assms(1)] by (simp add: apply_op_def)
next
  case (SelectAnswer k)
  then show ?thesis
    using assms by (simp add: apply_op_def session_after_handleAnswerSelection)
qed

lemma ops_in_range:
  assumes "session a = Some q" and "currentQuestionIndex q < length (quizData q)"
  shows "\<exists>q'. session (foldl apply_op a ops) = Some q' \<and> quizData q' = quizData q
           \<and> currentQuestionIndex q' < length (quizData q')"
  using assms
proof (induction ops arbitrary: a q)
  case Nil
  then show ?case by simp
next
  case (Cons op ops)
  from apply_op_in_range [OF Cons.prems, of op]
  obtain q1 where q1: "session (apply_op a op) = Some q1" "quizData q1 = quizData q"
    "currentQuestionIndex q1 < length (quizData q1)"
    by blast
  from Cons.IH [OF q1(1) q1(3)] q1(2) show ?case by simp
qed

lemma handleNext_last:
  "currentQuestionIndex q + 1 = length (quizData q) \<Longrightarrow>
   handleNext q a = Inr (renderResults q a)"
  by (simp add: handleNext_def)

lemma handlePrev_first: "currentQuestionIndex q = 0 \<Longrightarrow> handlePrev q a = Inr a"
  by (simp add: handlePrev_def)

lemma started_session_in_range:
  assumes "renderQuiz cid sid lid a0 = Inr a"
  shows "(\<exists>q lesson. session a = Some q
            \<and> find_lesson (data a0) cid sid lid = Some lesson \<and> quizData q = quiz lesson
            \<and> currentQuestionIndex q = 0 \<and> 0 < length (quizData q))
    \<and> (\<exists>q q'. session a = Some q \<and> session (foldl apply_op a ops) = Some q'
            \<and> quizData q' = quizData q
            \<and> currentQuestionIndex q' < length (quizData q'))"
proof -
  from assms obtain lesson where l: "find_lesson (data a0) cid sid lid = Some lesson"
    by (auto simp: renderQuiz_find_lesson split: option.splits)
  have ne: "quiz lesson \<noteq> []"
  proof
    assume "quiz lesson = []"
    then have "renderQuiz cid sid lid a0 = Inl (TypeError, a0)"
      using l by (simp add: renderQuiz_find_lesson renderCurrentQuestion_out_of_range
          fresh_session_def)
    with assms show False by simp
  qed
  from assms have s: "session a = Some (fresh_session cid sid lid lesson)"
    by (auto simp: renderQuiz_resolved [OF l ne])
  have r: "currentQuestionIndex (fresh_session cid sid lid lesson)
        < length (quizData (fresh_session cid sid lid lesson))"
    using ne by (simp add: fresh_session_def)
  from ops_in_range [OF s r, of ops] s l ne show ?thesis
    by (auto simp: fresh_session_def)
qed

text \<open>
  C6. A session that \<^verbatim>\<open>renderQuiz\<close> started has at least one question and starts at
  index 0; after any sequence of \<^verbatim>\<open>handleNext\<close>, \<^verbatim>\<open>handlePrev\<close> and
  \<^verbatim>\<open>handleAnswerSelection\<close> calls its questions are the same and its index is below their
  number. At the last question \<^verbatim>\<open>handleNext\<close> renders the results and leaves the session
  (so the index) as it is; at index 0 \<^verbatim>\<open>handlePrev\<close> changes nothing.
\<close>

theorem index_never_leaves_range:
  assumes "renderQuiz cid sid lid a0 = Inr a"
  shows "(\<exists>q q'. session a = Some q \<and> currentQuestionIndex q = 0 \<and> 0 < length (quizData q)
            \<and> session (foldl apply_op a ops) = Some q'
            \<and> quizData q' = quizData q
            \<and> currentQuestionIndex q' < length (quizData q'))
    \<and> (currentQuestionIndex s + 1 = length (quizData s) \<longrightarrow>
          handleNext s b = Inr (renderResults s b) \<and> session (renderResults s b) = Some s)
    \<and> (currentQuestionIndex s = 0 \<longrightarrow> handlePrev s b = Inr b)"
  using started_session_in_range [OF assms, of ops] handleNext_last [of s b]
    handlePrev_first [of s b] renderResults_session [of s b]
  by auto

theorem index_never_leaves_range_scenario:
  "renderQuiz ''c'' ''s'' ''l'' (run scenario_db [ClickCard ''c'', ClickCard ''s'', ClickCard ''l''])
     = Inr (run scenario_db to_quiz)
   \<and> (\<exists>q'. session (foldl apply_op (run scenario_db to_quiz)
                 [SelectAnswer 1, Next, Prev, Prev, Next, Next, Next, Next, SelectAnswer 7])
              = Some q'
           \<and> quizData q' = scenario_quiz
           \<and> currentQuestionIndex q' < length (quizData q'))
   \<and> currentQuestionIndex scenario_session + 1 = length (quizData scenario_session)
   \<and> handleNext scenario_session (run scenario_db to_quiz)
       = Inr (renderResults scenario_session (run scenario_db to_quiz))
   \<and> currentQuestionIndex (fresh_session ''c'' ''s'' ''l'' scenario_lesson) = 0
   \<and> handlePrev (fresh_session ''c'' ''s'' ''l'' scenario_lesson) (run scenario_db to_quiz)
       = Inr (run scenario_db to_quiz)"
proof -
  have ne: "quiz scenario_lesson \<noteq> []" by (simp add: scenario_quiz_def)
  have r: "renderQuiz ''c'' ''s'' ''l''
             (run scenario_db [ClickCard ''c'', ClickCard ''s'', ClickCard ''l''])
           = Inr (run scenario_db to_quiz)"
    unfolding run_to_lesson run_to_quiz
    by (simp add: renderQuiz_resolved [OF _ ne] find_lesson_scenario hd_scenario_quiz)
  have l: "currentQuestionIndex scenario_session + 1 = length (quizData scenario_session)"
    by (simp add: scenario_session_def scenario_quiz_def)
  have z: "currentQuestionIndex (fresh_session ''c'' ''s'' ''l'' scenario_lesson) = 0"
    by (simp add: fresh_session_def)
  have q: "session (run scenario_db to_quiz) = Some (fresh_session ''c'' ''s'' ''l'' scenario_lesson)"
    by (simp add: run_to_quiz)
  note t = index_never_leaves_range [OF r, where s = scenario_session
      and b = "run scenario_db to_quiz"
      and ops = "[SelectAnswer 1, Next, Prev, Prev, Next, Next, Next, Next, SelectAnswer 7]"]
  note u = index_never_leaves_range [OF r, where s = "fresh_session ''c'' ''s'' ''l'' scenario_lesson"
      and b = "run scenario_db to_quiz" and ops = "[]"]
  from t q have "\<exists>q'. session (foldl apply_op (run scenario_db to_quiz)
                 [SelectAnswer 1, Next, Prev, Prev, Next, Next, Next, Next, SelectAnswer 7])
              = Some q'
           \<and> quizData q' = scenario_quiz
           \<and> currentQuestionIndex q' < length (quizData q')"
    by (auto simp: fresh_session_def)
  moreover from t l have "handleNext scenario_session (run scenario_db to_quiz)
       = Inr (renderResults scenario_session (run scenario_db to_quiz))"
    by blast
  moreover from u z have "handlePrev (fresh_session ''c'' ''s'' ''l'' scenario_lesson)
      (run scenario_db to_quiz) = Inr (run scenario_db to_quiz)"
    by blast
  ultimately show ?thesis using r l z by blast
qed

section \<open>Retry\<close>

text \<open>
  C7. The retry listener calls \<^verbatim>\<open>renderQuiz\<close> with the ids of its session. Whatever the
  answers and the index of that session and whatever the page and the stack, the result
  is the session a fresh start gives for the lesson: index 0, every slot \<^verbatim>\<open>null\<close>, the
  lesson's questions, and question 0 on the page with enabled buttons.
\<close>

theorem retry_starts_fresh_session:
  assumes "find_lesson (data a) (courseId q) (subjectId q) (lessonId q) = Some lesson"
    and "quiz lesson \<noteq> []"
  shows "retry q a = renderQuiz (courseId q) (subjectId q) (lessonId q) a
    \<and> (\<exists>a'. retry q a = Inr a'
          \<and> session a' = Some (fresh_session (courseId q) (subjectId q) (lessonId q) lesson)
          \<and> appContainer a' = QuestionView 0 (length (options (hd (quiz lesson)))) False False)
    \<and> currentQuestionIndex (fresh_session (courseId q) (subjectId q) (lessonId q) lesson) = 0
    \<and> userAnswers (fresh_session (courseId q) (subjectId q) (lessonId q) lesson)
        = replicate (length (quiz lesson)) Null
    \<and> quizData (fresh_session (courseId q) (subjectId q) (lessonId q) lesson) = quiz lesson"
  by (simp add: retry_def renderQuiz_resolved [OF assms] fresh_session_def)

theorem retry_starts_fresh_session_scenario:
  "find_lesson (data (run scenario_db to_quiz)) (courseId scenario_session)
     (subjectId scenario_session) (lessonId scenario_session) = Some scenario_lesson
   \<and> quiz scenario_lesson \<noteq> []
   \<and> retry scenario_session (run scenario_db to_quiz)
       = renderQuiz ''c'' ''s'' ''l'' (run scenario_db to_quiz)
   \<and> session (after (retry scenario_session (run scenario_db to_quiz)))
       = Some \<lparr>courseId = ''c'', subjectId = ''s'', lessonId = ''l'',
               quizData = scenario_quiz, currentQuestionIndex = 0,
               userAnswers = [Null, Null, Null]\<rparr>
   \<and> appContainer (after (retry scenario_session (run scenario_db to_quiz)))
       = QuestionView 0 3 False False"
proof -
  have f: "find_lesson (data (run scenario_db to_quiz)) (courseId scenario_session)
     (subjectId scenario_session) (lessonId scenario_session) = Some scenario_lesson"
    by (simp add: run_to_quiz scenario_session_def find_lesson_scenario)
  have ne: "quiz scenario_lesson \<noteq> []" by (simp add: scenario_quiz_def)
  from retry_starts_fresh_session [OF f ne]
  obtain a' where r: "retry scenario_session (run scenario_db to_quiz) = Inr a'"
    and s: "session a' = Some (fresh_session (courseId scenario_session)
              (subjectId scenario_session) (lessonId scenario_session) scenario_lesson)"
    and v: "appContainer a' = QuestionView 0 (length (options (hd (quiz scenario_lesson))))
              False False"
    by blast
  have e: "retry scenario_session (run scenario_db to_quiz)
       = renderQuiz ''c'' ''s'' ''l'' (run scenario_db to_quiz)"
    by (simp add: retry_def scenario_session_def)
  have s': "session a' = Some \<lparr>courseId = ''c'', subjectId = ''s'', lessonId = ''l'',
               quizData = scenario_quiz, currentQuestionIndex = 0,
               userAnswers = [Null, Null, Null]\<rparr>"
    using s by (simp add: fresh_session_def scenario_session_def length_scenario_quiz
        numeral_3_eq_3)
  have v': "appContainer a' = QuestionView 0 3 False False"
    using v by (simp add: hd_scenario_quiz)
  from e r have e': "renderQuiz ''c'' ''s'' ''l'' (run scenario_db to_quiz) = Inr a'" by simp
  show ?thesis
    using f ne s' v' by (simp add: r e')
qed

section \<open>Rendering the results\<close>

text \<open>
  C8. Computing and showing the score leaves the session as it is (the same answers,
  the same index) and the document untouched; what is shown is the score and the review
  of that session, and showing them a second time shows the same.
\<close>

theorem renderResults_keeps_session:
  "session (renderResults q a) = Some q
   \<and> data (renderResults q a) = data a
   \<and> appContainer (renderResults q a) =
       ResultsView (correctCount (score q)) (total (score q)) (percent (score q)) (review q)
   \<and> appContainer (renderResults q (renderResults q a)) = appContainer (renderResults q a)
   \<and> session (renderResults q (renderResults q a)) = Some q"
  by (simp add: renderResults_def updateView_def split: option.splits)

lemma state_at_below_top:
  "state_at (st @ [x, y]) (int (length (st @ [x, y])) - 2) = Some x"
  by (simp add: state_at_def nth_append)

lemma renderResults_pushes:
  "renderResults q (a\<lparr>navigationStack := st @ [x, y]\<rparr>) =
     a\<lparr>appContainer :=
         ResultsView (correctCount (score q)) (total (score q)) (percent (score q)) (review q),
       navigationStack := st @ [x, y, x],
       session := Some q\<rparr>"
  using state_at_below_top [of st x y]
  by (simp add: renderResults_def updateView_def)

lemma renderResults_short_stack:
  "length (navigationStack a) < 2 \<Longrightarrow> navigationStack (renderResults q a) = navigationStack a"
  by (simp add: renderResults_def updateView_def state_at_def)

lemma handleBack_from_results:
  "handleBack (renderResults q (a\<lparr>navigationStack := st @ [x, Quiz cid sid lid]\<rparr>)) =
     renderQuiz cid sid lid ((renderResults q a)\<lparr>navigationStack := st @ [x]\<rparr>)"
  using state_at_below_top [of st x "Quiz cid sid lid"]
  by (cases a)
     (simp add: handleBack_def renderResults_def updateView_def butlast_append
        split: option.splits)

text \<open>
  The state pushed for the results page is a copy of the entry directly below the top
  of the stack, whatever it is; nothing is pushed when the stack has fewer than two
  entries. With a quiz state on top, \<^verbatim>\<open>handleBack\<close> on the results page renders that quiz
  state again: a fresh session at question 0.
\<close>

lemma results_push_entry_below_top:
  "navigationStack (renderResults q (a\<lparr>navigationStack := st @ [x, y]\<rparr>)) = st @ [x, y, x]
   \<and> (length (navigationStack a) < 2 \<longrightarrow>
        navigationStack (renderResults q a) = navigationStack a)
   \<and> handleBack (renderResults q (a\<lparr>navigationStack := st @ [x, Quiz cid sid lid]\<rparr>)) =
       renderQuiz cid sid lid ((renderResults q a)\<lparr>navigationStack := st @ [x]\<rparr>)
   \<and> (find_lesson (data a) cid sid lid = Some lesson \<and> quiz lesson \<noteq> [] \<longrightarrow>
        (\<exists>a'. handleBack (renderResults q (a\<lparr>navigationStack := st @ [x, Quiz cid sid lid]\<rparr>))
                = Inr a'
           \<and> session a' = Some (fresh_session cid sid lid lesson)
           \<and> appContainer a' = QuestionView 0 (length (options (hd (quiz lesson)))) False False
           \<and> navigationStack a' = st @ [x, Quiz cid sid lid]))"
proof (intro conjI impI)
  show "navigationStack (renderResults q (a\<lparr>navigationStack := st @ [x, y]\<rparr>)) = st @ [x, y, x]"
    by (simp add: renderResults_pushes)
next
  assume "length (navigationStack a) < 2"
  then show "navigationStack (renderResults q a) = navigationStack a"
    by (rule renderResults_short_stack)
next
  show "handleBack (renderResults q (a\<lparr>navigationStack := st @ [x, Quiz cid sid lid]\<rparr>)) =
       renderQuiz cid sid lid ((renderResults q a)\<lparr>navigationStack := st @ [x]\<rparr>)"
    by (rule handleBack_from_results)
next
  assume h: "find_lesson (data a) cid sid lid = Some lesson \<and> quiz lesson \<noteq> []"
  then have f: "find_lesson (data ((renderResults q a)\<lparr>navigationStack := st @ [x]\<rparr>)) cid sid lid
                = Some lesson"
    by (simp add: renderResults_def updateView_def split: option.splits)
  from h have ne: "quiz lesson \<noteq> []" by simp
  show "\<exists>a'. handleBack (renderResults q (a\<lparr>navigationStack := st @ [x, Quiz cid sid lid]\<rparr>))
                = Inr a'
           \<and> session a' = Some (fresh_session cid sid lid lesson)
           \<and> appContainer a' = QuestionView 0 (length (options (hd (quiz lesson)))) False False
           \<and> navigationStack a' = st @ [x, Quiz cid sid lid]"
    by (simp add: handleBack_from_results renderQuiz_resolved [OF f ne])
qed

text \<open>
  Results shown for the page the quiz was entered with: the entry below the top is the
  lesson state, and that is what is pushed.
\<close>

lemma results_push_lesson_state_without_next:
  "length (navigationStack (run scenario_db [])) < 2
   \<and> navigationStack (renderResults scenario_session (run scenario_db [])) = []
   \<and> find_lesson (data (run scenario_db to_quiz)) ''c'' ''s'' ''l'' = Some scenario_lesson
   \<and> quiz scenario_lesson \<noteq> []
   \<and> navigationStack (renderResults scenario_session (run scenario_db to_quiz))
       = [Subjects ''c'', Lessons ''c'' ''s'', Lesson ''c'' ''s'' ''l'', Quiz ''c'' ''s'' ''l'',
          Lesson ''c'' ''s'' ''l'']
   \<and> session (after (handleBack (renderResults scenario_session (run scenario_db to_quiz))))
       = Some (fresh_session ''c'' ''s'' ''l'' scenario_lesson)
   \<and> appContainer (after (handleBack (renderResults scenario_session (run scenario_db to_quiz))))
       = QuestionView 0 3 False False
   \<and> navigationStack (after (handleBack (renderResults scenario_session (run scenario_db to_quiz))))
       = [Subjects ''c'', Lessons ''c'' ''s'', Lesson ''c'' ''s'' ''l'', Quiz ''c'' ''s'' ''l'']"
proof -
  let ?a = "run scenario_db to_quiz"
  have s: "?a\<lparr>navigationStack := [Subjects ''c'', Lessons ''c'' ''s'']
                @ [Lesson ''c'' ''s'' ''l'', Quiz ''c'' ''s'' ''l'']\<rparr> = ?a"
    by (simp add: run_to_quiz)
  have e: "length (navigationStack (run scenario_db [])) < 2" by (simp add: run_Nil)
  have f: "find_lesson (data ?a) ''c'' ''s'' ''l'' = Some scenario_lesson"
    by (simp add: run_to_quiz find_lesson_scenario)
  have ne: "quiz scenario_lesson \<noteq> []" by (simp add: scenario_quiz_def)
  note t = results_push_entry_below_top [where q = scenario_session and a = ?a
      and st = "[Subjects ''c'', Lessons ''c'' ''s'']" and x = "Lesson ''c'' ''s'' ''l''"
      and y = "Quiz ''c'' ''s'' ''l''" and cid = "''c''" and sid = "''s''" and lid = "''l''"
      and lesson = scenario_lesson]
  note u = results_push_entry_below_top [where q = scenario_session
      and a = "run scenario_db []"]
  from u e have 1: "navigationStack (renderResults scenario_session (run scenario_db [])) = []"
    by (simp add: run_Nil)
  from t have 2: "navigationStack (renderResults scenario_session ?a)
       = [Subjects ''c'', Lessons ''c'' ''s'', Lesson ''c'' ''s'' ''l'', Quiz ''c'' ''s'' ''l'',
          Lesson ''c'' ''s'' ''l'']"
    unfolding s by simp
  from t f ne obtain a' where
    "handleBack (renderResults scenario_session ?a) = Inr a'"
    "session a' = Some (fresh_session ''c'' ''s'' ''l'' scenario_lesson)"
    "appContainer a' = QuestionView 0 (length (options (hd (quiz scenario_lesson)))) False False"
    "navigationStack a' = [Subjects ''c'', Lessons ''c'' ''s''] @ [Lesson ''c'' ''s'' ''l'', Quiz ''c'' ''s'' ''l'']"
    unfolding s by blast
  then have 3: "session (after (handleBack (renderResults scenario_session ?a)))
       = Some (fresh_session ''c'' ''s'' ''l'' scenario_lesson)"
    "appContainer (after (handleBack (renderResults scenario_session ?a)))
       = QuestionView 0 3 False False"
    "navigationStack (after (handleBack (renderResults scenario_session ?a)))
       = [Subjects ''c'', Lessons ''c'' ''s'', Lesson ''c'' ''s'' ''l'', Quiz ''c'' ''s'' ''l'']"
    by (simp_all add: hd_scenario_quiz)
  from e 1 f ne 2 3 show ?thesis by blast
qed

text \<open>
  C9. The push for the results page (\<^verbatim>\<open>navigationStack[length - 2]\<close>, with the source's
  comment "Go back to lesson list state") is meant to be the lesson state that was
  pushed when the lesson was entered. Every rendered question pushes a quiz state,
  though: in the scenario's quiz of three questions, finished by three clicks on
  "Next", the entry below the top is a quiz state, and a quiz state is pushed instead
  of the lesson state.
\<close>

theorem results_push_quiz_state_after_next:
  "navigationStack (run scenario_db (to_quiz @ [ClickNext, ClickNext])) =
     [Subjects ''c'', Lessons ''c'' ''s'', Lesson ''c'' ''s'' ''l'',
      Quiz ''c'' ''s'' ''l'', Quiz ''c'' ''s'' ''l'', Quiz ''c'' ''s'' ''l'']
   \<and> navigationStack (run scenario_db (to_quiz @ [ClickNext, ClickNext, ClickNext])) =
     [Subjects ''c'', Lessons ''c'' ''s'', Lesson ''c'' ''s'' ''l'',
      Quiz ''c'' ''s'' ''l'', Quiz ''c'' ''s'' ''l'', Quiz ''c'' ''s'' ''l'',
      Quiz ''c'' ''s'' ''l'']
   \<and> last (navigationStack (run scenario_db (to_quiz @ [ClickNext, ClickNext, ClickNext])))
       \<noteq> Lesson ''c'' ''s'' ''l''"
proof -
  have e: "to_quiz @ [ClickNext, ClickNext, ClickNext]
           = (to_quiz @ [ClickNext, ClickNext]) @ [ClickNext]"
    by simp
  have "navigationStack (run scenario_db (to_quiz @ [ClickNext, ClickNext, ClickNext])) =
     [Subjects ''c'', Lessons ''c'' ''s'', Lesson ''c'' ''s'' ''l'',
      Quiz ''c'' ''s'' ''l'', Quiz ''c'' ''s'' ''l'', Quiz ''c'' ''s'' ''l'',
      Quiz ''c'' ''s'' ''l'']"
    unfolding e
    by (subst run_snoc, subst run_next_next)
       (simp add: step_def dispatch_def handleNext_def renderResults_def updateView_def
          state_at_def length_scenario_quiz)
  then show ?thesis by (simp add: run_next_next)
qed

section \<open>The stack never holds the root state\<close>

lemma updateView_no_Courses:
  "Courses \<notin> set (navigationStack a) \<Longrightarrow> state \<noteq> Some Courses \<Longrightarrow>
   Courses \<notin> set (navigationStack (updateView content state a))"
  by (cases state) (auto simp: updateView_def)

lemma renderCourseList_stack: "navigationStack (after (renderCourseList a)) = navigationStack a"
  by (simp add: renderCourseList_def updateView_def)

lemma renderCurrentQuestion_no_Courses:
  "Courses \<notin> set (navigationStack a) \<Longrightarrow>
   Courses \<notin> set (navigationStack (after (renderCurrentQuestion q a)))"
  by (simp add: renderCurrentQuestion_def updateView_def split: option.splits)

lemma renderView_no_Courses:
  "Courses \<notin> set (navigationStack a) \<Longrightarrow>
   Courses \<notin> set (navigationStack (after (renderView x a)))"
  by (cases x)
     (simp_all add: renderCourseList_def renderSubjectList_def renderLessonList_def
        renderLessonDetail_def renderQuiz_def renderCurrentQuestion_no_Courses updateView_def
        split: option.splits)

lemma handleBack_no_Courses:
  assumes "Courses \<notin> set (navigationStack a)"
  shows "Courses \<notin> set (navigationStack (after (handleBack a)))"
proof -
  have b: "Courses \<notin> set (butlast (navigationStack a))"
    using assms by (meson in_set_butlastD)
  then have bb: "Courses \<notin> set (butlast (butlast (navigationStack a)))"
    by (meson in_set_butlastD)
  show ?thesis
    using b bb
    by (simp add: handleBack_def Let_def renderView_no_Courses renderCourseList_stack)
qed

lemma renderResults_no_Courses:
  assumes "Courses \<notin> set (navigationStack a)"
  shows "Courses \<notin> set (navigationStack (renderResults q a))"
proof -
  have "state_at st i = Some x \<Longrightarrow> x \<in> set st" for st i x
    by (auto simp: state_at_def split: if_splits)
  then have "state_at (navigationStack a) (int (length (navigationStack a)) - 2) \<noteq> Some Courses"
    using assms by blast
  then show ?thesis
    using assms by (simp add: renderResults_def updateView_no_Courses)
qed

lemma quiz_handlers_no_Courses:
  assumes "Courses \<notin> set (navigationStack a)"
  shows "Courses \<notin> set (navigationStack (after (handleNext q a)))"
    and "Courses \<notin> set (navigationStack (after (handlePrev q a)))"
    and "Courses \<notin> set (navigationStack (after (handleAnswerSelection k q a)))"
    and "Courses \<notin> set (navigationStack (after (retry q a)))"
    and "Courses \<notin> set (navigationStack (after (renderQuiz cid sid lid a)))"
    and "Courses \<notin> set (navigationStack (after (renderSubjectList cid a)))"
    and "Courses \<notin> set (navigationStack (after (renderLessonList cid sid a)))"
    and "Courses \<notin> set (navigationStack (after (renderLessonDetail cid sid lid a)))"
proof -
  show "Courses \<notin> set (navigationStack (after (handleNext q a)))"
    using assms
    by (simp add: handleNext_def Let_def renderCurrentQuestion_no_Courses
        renderResults_no_Courses)
  show "Courses \<notin> set (navigationStack (after (handlePrev q a)))"
    using assms by (simp add: handlePrev_def Let_def renderCurrentQuestion_no_Courses)
  show "Courses \<notin> set (navigationStack (after (handleAnswerSelection k q a)))"
    using assms
    by (simp add: handleAnswerSelection_def Let_def split: view.splits option.splits)
  show "Courses \<notin> set (navigationStack (after (renderQuiz cid sid lid a)))"
    using renderView_no_Courses [OF assms, of "Quiz cid sid lid"] by simp
  then show "Courses \<notin> set (navigationStack (after (retry q a)))"
    using renderView_no_Courses [OF assms, of "Quiz (courseId q) (subjectId q) (lessonId q)"]
    by (simp add: retry_def)
  show "Courses \<notin> set (navigationStack (after (renderSubjectList cid a)))"
    using renderView_no_Courses [OF assms, of "Subjects cid"] by simp
  show "Courses \<notin> set (navigationStack (after (renderLessonList cid sid a)))"
    using renderView_no_Courses [OF assms, of "Lessons cid sid"] by simp
  show "Courses \<notin> set (navigationStack (after (renderLessonDetail cid sid lid a)))"
    using renderView_no_Courses [OF assms, of "Lesson cid sid lid"] by simp
qed

lemma dispatch_no_Courses:
  assumes "Courses \<notin> set (navigationStack a)" and "dispatch ev a = Some r"
  shows "Courses \<notin> set (navigationStack (after r))"
  using assms(2) quiz_handlers_no_Courses [OF assms(1)] handleBack_no_Courses [OF assms(1)]
  by (auto simp: dispatch_def split: view.splits event.splits option.splits if_splits)

lemma step_no_Courses:
  "Courses \<notin> set (navigationStack a) \<Longrightarrow> Courses \<notin> set (navigationStack (step a ev))"
  by (auto simp: step_def dest: dispatch_no_Courses split: option.splits)

lemma foldl_step_no_Courses:
  "Courses \<notin> set (navigationStack a) \<Longrightarrow>
   Courses \<notin> set (navigationStack (foldl step a evs))"
  by (induction evs arbitrary: a) (simp_all add: step_no_Courses)

lemma run_no_Courses: "Courses \<notin> set (navigationStack (run d evs))"
  unfolding run_def
  by (rule foldl_step_no_Courses) (simp add: init_def renderCourseList_def updateView_def)

lemma renderView_not_root:
  "x \<noteq> Courses \<Longrightarrow> renderView x a = Inr a' \<Longrightarrow> appContainer a' \<noteq> CourseListView"
  by (cases x)
     (auto simp: renderSubjectList_def renderLessonList_def renderLessonDetail_def
        renderQuiz_def renderCurrentQuestion_def updateView_def split: option.splits)

lemma handleBack_root_only_from_empty:
  assumes "Courses \<notin> set (navigationStack a)" and "handleBack a = Inr a'"
    and "appContainer a' = CourseListView"
  shows "butlast (navigationStack a) = []"
proof (rule ccontr)
  assume ne: "butlast (navigationStack a) \<noteq> []"
  then have "last (butlast (navigationStack a)) \<in> set (butlast (navigationStack a))"
    by simp
  then have "last (butlast (navigationStack a)) \<in> set (navigationStack a)"
    by (meson in_set_butlastD)
  with assms(1) have x: "last (butlast (navigationStack a)) \<noteq> Courses" by auto
  from ne assms(2) have "renderView (last (butlast (navigationStack a)))
      (a\<lparr>navigationStack := butlast (butlast (navigationStack a))\<rparr>) = Inr a'"
    by (simp add: handleBack_def Let_def)
  from renderView_not_root [OF x this] assms(3) show False by simp
qed

text \<open>
  C10. After any sequence of clicks from the start the navigation stack holds no
  \<open>Courses\<close> state; rendering the course list pushes nothing; and when \<^verbatim>\<open>handleBack\<close>
  ends on the course list, the stack was empty after its first pop.
\<close>

theorem stack_never_holds_Courses:
  "Courses \<notin> set (navigationStack (run d evs))
   \<and> navigationStack (after (renderCourseList a)) = navigationStack a
   \<and> (handleBack (run d evs) = Inr a' \<and> appContainer a' = CourseListView \<longrightarrow>
        butlast (navigationStack (run d evs)) = [])"
  using run_no_Courses [of d evs] handleBack_root_only_from_empty [of "run d evs" a']
  by (simp add: renderCourseList_stack)

theorem stack_never_holds_Courses_scenario:
  "handleBack (run scenario_db [ClickCard ''c''])
     = Inr \<lparr>appContainer = CourseListView, data = scenario_db, navigationStack = [],
            session = None\<rparr>
   \<and> butlast (navigationStack (run scenario_db [ClickCard ''c''])) = []
   \<and> Courses \<notin> set (navigationStack (run scenario_db [ClickCard ''c'']))"
proof -
  have h: "handleBack (run scenario_db [ClickCard ''c''])
     = Inr \<lparr>appContainer = CourseListView, data = scenario_db, navigationStack = [],
            session = None\<rparr>"
    by (simp add: run_to_subjects handleBack_def renderCourseList_def updateView_def)
  from stack_never_holds_Courses [where d = scenario_db and evs = "[ClickCard ''c'']"
      and a' = "\<lparr>appContainer = CourseListView, data = scenario_db, navigationStack = [],
            session = None\<rparr>"] h
  show ?thesis by simp
qed

end
